theory Spec2Isabelle
  imports Main "HOL-Library.Sublist"
begin

section \<open>The Snowpack dev server (\<^verbatim>\<open>src/dev/command.ts\<close>)\<close>

text \<open>
  A shallow embedding of the development server: the request handler with its file
  resolution, the Babel build step, the file cache, the watch callback with its
  live-reload broadcast, the directory watcher and the parser of the output of
  \<^verbatim>\<open>tsc --watch\<close>.

  JavaScript strings are modelled as \<^typ>\<open>string\<close>, one \<^typ>\<open>char\<close> per code unit, so
  the model covers strings whose code units are below 256.
\<close>

subsection \<open>JavaScript string operations\<close>

text \<open>\<^verbatim>\<open>s.startsWith(p)\<close>, \<^verbatim>\<open>s.endsWith(p)\<close> and \<^verbatim>\<open>s.includes(p)\<close>.\<close>

definition startsWith :: "string \<Rightarrow> string \<Rightarrow> bool" where
  "startsWith s p = prefix p s"

definition endsWith :: "string \<Rightarrow> string \<Rightarrow> bool" where
  "endsWith s p = suffix p s"

fun str_includes :: "string \<Rightarrow> string \<Rightarrow> bool" where
  "str_includes [] p = (p = [])"
| "str_includes (c # cs) p = (prefix p (c # cs) \<or> str_includes cs p)"

text \<open>
  The first occurrence of a search string: the text before it and the text after it
  (\<^verbatim>\<open>indexOf\<close>, then the two slices).
\<close>

fun splitAtFirst :: "string \<Rightarrow> string \<Rightarrow> (string \<times> string) option" where
  "splitAtFirst pat [] = (if pat = [] then Some ([], []) else None)"
| "splitAtFirst pat (c # cs) =
     (if prefix pat (c # cs) then Some ([], drop (length pat) (c # cs))
      else map_option (\<lambda>(b, a). (c # b, a)) (splitAtFirst pat cs))"

text \<open>
  The replacement text of \<^verbatim>\<open>String.prototype.replace\<close> for a search string (no capture
  groups): \<^verbatim>\<open>$$\<close> is a dollar sign, \<^verbatim>\<open>$&\<close> the matched text, \<^verbatim>\<open>$`\<close> the text before the
  match, \<^verbatim>\<open>$'\<close> the text after it; every other character, a dollar sign before anything
  else included, stands for itself.
\<close>

fun getSubstitution :: "string \<Rightarrow> string \<Rightarrow> string \<Rightarrow> string \<Rightarrow> string" where
  "getSubstitution m b a [] = []"
| "getSubstitution m b a [c] = [c]"
| "getSubstitution m b a (c # d # r) =
     (if c = CHR ''$'' then
        (if d = CHR ''$'' then CHR ''$'' # getSubstitution m b a r
         else if d = CHR ''&'' then m @ getSubstitution m b a r
         else if d = CHR 0x60 then b @ getSubstitution m b a r
         else if d = CHR 0x27 then a @ getSubstitution m b a r
         else c # getSubstitution m b a (d # r))
      else c # getSubstitution m b a (d # r))"

text \<open>\<^verbatim>\<open>s.replace(pat, rep)\<close> with a string \<^verbatim>\<open>pat\<close>: only the first occurrence is replaced.\<close>

definition replace :: "string \<Rightarrow> string \<Rightarrow> string \<Rightarrow> string" where
  "replace s pat rep =
     (case splitAtFirst pat s of
        None \<Rightarrow> s
      | Some (b, a) \<Rightarrow> b @ getSubstitution pat b a rep @ a)"

text \<open>\<^verbatim>\<open>s.replace(/\.js$/, ext)\<close>, for the replacements \<^verbatim>\<open>'.ts'\<close>, \<^verbatim>\<open>'.jsx'\<close>, \<^verbatim>\<open>'.tsx'\<close>.\<close>

definition replaceJsExt :: "string \<Rightarrow> string \<Rightarrow> string" where
  "replaceJsExt s ext = (if suffix ''.js'' s then take (length s - 3) s @ ext else s)"

text \<open>\<^verbatim>\<open>s.replace(/\.(js|ts|jsx|tsx)$/, '.js')\<close>.\<close>

definition replaceSourceExt :: "string \<Rightarrow> string" where
  "replaceSourceExt s =
     (if suffix ''.js'' s \<or> suffix ''.ts'' s then take (length s - 3) s @ ''.js''
      else if suffix ''.jsx'' s \<or> suffix ''.tsx'' s then take (length s - 4) s @ ''.js''
      else s)"

text \<open>
  Line terminators and white space of ECMAScript, among the code units below 256;
  \<^verbatim>\<open>trimStart\<close> removes both from the front.
\<close>

definition isLineTerminator :: "char \<Rightarrow> bool" where
  "isLineTerminator c = (c = CHR 0x0A \<or> c = CHR 0x0D)"

definition isWhiteSpace :: "char \<Rightarrow> bool" where
  "isWhiteSpace c =
     (c = CHR 0x09 \<or> c = CHR 0x0B \<or> c = CHR 0x0C \<or> c = CHR 0x20 \<or> c = CHR 0xA0
      \<or> isLineTerminator c)"

definition trimStart :: "string \<Rightarrow> string" where
  "trimStart s = dropWhile isWhiteSpace s"

text \<open>\<^verbatim>\<open>s.toLowerCase()\<close> on code units below 256: A-Z and the Latin-1 capitals.\<close>

definition toLowerChar :: "char \<Rightarrow> char" where
  "toLowerChar c =
     (let n = of_char c :: nat in
      if (65 \<le> n \<and> n \<le> 90) \<or> (192 \<le> n \<and> n \<le> 222 \<and> n \<noteq> 215)
      then char_of (n + 32) else c)"

definition toLowerCase :: "string \<Rightarrow> string" where
  "toLowerCase s = map toLowerChar s"

text \<open>
  A JavaScript number that is a whole number and not negative, or \<^verbatim>\<open>Infinity\<close>.
\<close>

datatype number = Number nat | Infinity

text \<open>
  The double nearest to a natural number, ties going to the even significand: a number
  below \<open>2\<^sup>5\<^sup>3\<close> is itself; a larger one keeps its 53 leading bits, rounded; from
  \<open>2\<^sup>1\<^sup>0\<^sup>2\<^sup>4\<close> on the result is \<^verbatim>\<open>Infinity\<close>.
\<close>

fun bitLength :: "nat \<Rightarrow> nat" where
  "bitLength n = (if n = 0 then 0 else Suc (bitLength (n div 2)))"

declare bitLength.simps [simp del]

definition roundToDouble :: "nat \<Rightarrow> number" where
  "roundToDouble n =
     (if n < 2 ^ 53 then Number n
      else
        (let e = bitLength n - 53;
             q = n div 2 ^ e;
             r = n mod 2 ^ e;
             half = 2 ^ (e - 1);
             m = (if half < r \<or> (r = half \<and> odd q) then q + 1 else q)
         in if 2 ^ 1024 \<le> m * 2 ^ e then Infinity else Number (m * 2 ^ e)))"

text \<open>
  A decimal digit, the value of a string of decimal digits, and \<^verbatim>\<open>parseInt\<close> on such a
  string: the double nearest to its value.
\<close>

definition isDigit :: "char \<Rightarrow> bool" where
  "isDigit c = (let n = of_char c :: nat in 48 \<le> n \<and> n \<le> 57)"

definition decimalValue :: "string \<Rightarrow> nat" where
  "decimalValue ds = foldl (\<lambda>n c. 10 * n + (of_char c - 48)) 0 ds"

definition parseInt :: "string \<Rightarrow> number" where
  "parseInt ds = roundToDouble (decimalValue ds)"

subsection \<open>Events on the message bus\<close>

datatype babel_error = BabelError string

record BabelFileResult =
  code :: "string option"

datatype event =
    BABEL_START string
  | BABEL_FINISH string "BabelFileResult option"
  | BABEL_ERROR string babel_error
  | TSC_RESET
  | TSC_MSG string
  | TSC_DONE
  | TSC_ERROR number
  | SERVER_RESPONSE string string nat
  | NEW_SESSION

subsection \<open>The output of the type checker\<close>

text \<open>The escape sequence \<^verbatim>\<open>\x1Bc\<close> (the same string as \<^verbatim>\<open>\u001bc\<close>).\<close>

definition clearScreen :: string where
  "clearScreen = [CHR 0x1B, CHR ''c'']"

text \<open>
  \<^verbatim>\<open>/^\[/gm.test(s)\<close>: an opening bracket at the start of the text or right after a line
  terminator. The flag says whether the position read is the start of a line.
\<close>

fun testLineBracket :: "bool \<Rightarrow> string \<Rightarrow> bool" where
  "testLineBracket atStart [] = False"
| "testLineBracket atStart (c # cs) =
     ((atStart \<and> c = CHR ''['') \<or> testLineBracket (isLineTerminator c) cs)"

text \<open>
  \<^verbatim>\<open>/Watching for file changes./gm.test(s)\<close>: the phrase, then one more character that is
  not a line terminator (the dot of the pattern matches any such character).
\<close>

definition watchingHere :: "string \<Rightarrow> bool" where
  "watchingHere s =
     (prefix ''Watching for file changes'' s \<and>
      (case drop (length ''Watching for file changes'') s of
         [] \<Rightarrow> False
       | d # _ \<Rightarrow> \<not> isLineTerminator d))"

fun testWatching :: "string \<Rightarrow> bool" where
  "testWatching [] = False"
| "testWatching (c # cs) = (watchingHere (c # cs) \<or> testWatching cs)"

text \<open>
  \<^verbatim>\<open>s.match(/Found (\d+) errors/)\<close>: the digits of the leftmost match. At one position the
  digits are the longest run after \<^verbatim>\<open>Found \<close>, since what follows a shorter run is a
  digit, not the space the pattern asks for.
\<close>

definition foundHere :: "string \<Rightarrow> string option" where
  "foundHere s =
     (if prefix ''Found '' s then
        (let r = drop (length ''Found '') s; ds = takeWhile isDigit r in
         if ds \<noteq> [] \<and> prefix '' errors'' (dropWhile isDigit r) then Some ds else None)
      else None)"

fun matchFound :: "string \<Rightarrow> string option" where
  "matchFound [] = None"
| "matchFound (c # cs) =
     (case foundHere (c # cs) of Some ds \<Rightarrow> Some ds | None \<Rightarrow> matchFound cs)"

text \<open>
  The listener of \<^verbatim>\<open>stdout.on('data', ...)\<close>: the events it emits for one chunk \<open>b\<close>, in
  order. \<open>stripClear\<close> is the text the listener goes on with after its two \<^verbatim>\<open>replace\<close>
  calls and \<^verbatim>\<open>trimStart\<close>.
\<close>

definition stripClear :: "string \<Rightarrow> string" where
  "stripClear b = trimStart (replace (replace b clearScreen []) clearScreen [])"

definition tscOnData :: "string \<Rightarrow> event list" where
  "tscOnData b =
     (let tscOutput = stripClear b in
      (if startsWith b clearScreen \<or> startsWith b clearScreen then [TSC_RESET] else []) @
      [TSC_MSG tscOutput] @
      (if testLineBracket True tscOutput then
         (if testWatching tscOutput then [TSC_DONE] else []) @
         (case matchFound tscOutput of
            Some ds \<Rightarrow> [TSC_ERROR (parseInt ds)]
          | None \<Rightarrow> [])
       else []))"

subsection \<open>The listener, described by the text of a chunk\<close>

text \<open>
  The description that the listener is compared with, written with nothing but the
  text: \<open>t\<close> is \<open>s\<close> without the first occurrence of \<open>pat\<close> (or \<open>s\<close> itself when \<open>pat\<close> does
  not occur); \<open>t\<close> is \<open>s\<close> without its leading white space; \<open>t\<close> is what is forwarded of
  a chunk; a text has a line that starts with a bracket; a text has the watching phrase
  followed by one more character of the same line; \<open>ds\<close> is a non-empty run of digits
  between \<^verbatim>\<open>Found \<close> and \<^verbatim>\<open> errors\<close> right after \<open>u\<close>; and \<open>ds\<close> is the run of the leftmost
  such place.
\<close>

definition spec_withoutFirst :: "string \<Rightarrow> string \<Rightarrow> string \<Rightarrow> bool" where
  "spec_withoutFirst pat s t \<longleftrightarrow>
     (\<exists>u v. s = u @ pat @ v \<and> t = u @ v \<and>
            (\<forall>u' v'. s = u' @ pat @ v' \<longrightarrow> length u \<le> length u')) \<or>
     ((\<forall>u v. s \<noteq> u @ pat @ v) \<and> t = s)"

definition spec_leftTrimmed :: "string \<Rightarrow> string \<Rightarrow> bool" where
  "spec_leftTrimmed s t \<longleftrightarrow>
     (\<exists>w. s = w @ t \<and> list_all isWhiteSpace w \<and>
          (case t of [] \<Rightarrow> True | c # _ \<Rightarrow> \<not> isWhiteSpace c))"

definition spec_forwarded :: "string \<Rightarrow> string \<Rightarrow> bool" where
  "spec_forwarded b t \<longleftrightarrow>
     (\<exists>t1 t2. spec_withoutFirst clearScreen b t1 \<and> spec_withoutFirst clearScreen t1 t2 \<and>
             spec_leftTrimmed t2 t)"

definition spec_bracketLine :: "string \<Rightarrow> bool" where
  "spec_bracketLine t \<longleftrightarrow>
     prefix ''['' t \<or> (\<exists>u l v. t = u @ l # CHR ''['' # v \<and> isLineTerminator l)"

definition spec_watching :: "string \<Rightarrow> bool" where
  "spec_watching t \<longleftrightarrow>
     (\<exists>u d v. t = u @ ''Watching for file changes'' @ d # v \<and> \<not> isLineTerminator d)"

definition spec_errorsAt :: "string \<Rightarrow> string \<Rightarrow> string \<Rightarrow> bool" where
  "spec_errorsAt t u ds \<longleftrightarrow>
     ds \<noteq> [] \<and> list_all isDigit ds \<and> (\<exists>v. t = u @ ''Found '' @ ds @ '' errors'' @ v)"

definition spec_leftmostErrors :: "string \<Rightarrow> string \<Rightarrow> bool" where
  "spec_leftmostErrors t ds \<longleftrightarrow>
     (\<exists>u. spec_errorsAt t u ds \<and>
          (\<forall>u' ds'. spec_errorsAt t u' ds' \<longrightarrow> length u \<le> length u'))"

subsection \<open>The file system\<close>

text \<open>
  What the file system holds at a path, as \<^verbatim>\<open>stat\<close>, \<^verbatim>\<open>readFile\<close> and \<^verbatim>\<open>readdirSync\<close> see it:
  nothing, a regular file with its text (no text when the file cannot be read), or a
  directory with the names of its entries. The text of a file is the string that
  \<^verbatim>\<open>readFile\<close> returns for it; the model does not decode bytes, so the encoding passed
  to \<^verbatim>\<open>readFile\<close> does not change the text.
\<close>

datatype node = RegularFile "string option" | Directory "string list"

type_synonym file_system = "string \<Rightarrow> node option"

datatype encoding = utf8 | binary

datatype fs_error = ENOENT | ENOTDIR

definition isFile :: "node \<Rightarrow> bool" where
  "isFile n = (case n of RegularFile _ \<Rightarrow> True | Directory _ \<Rightarrow> False)"

definition isDirectory :: "node \<Rightarrow> bool" where
  "isDirectory n = (case n of RegularFile _ \<Rightarrow> False | Directory _ \<Rightarrow> True)"

definition readFile :: "file_system \<Rightarrow> string \<Rightarrow> encoding \<Rightarrow> string option" where
  "readFile fs p enc =
     (case fs p of
        Some (RegularFile (Some contents)) \<Rightarrow> Some contents
      | _ \<Rightarrow> None)"

definition readdirSync :: "file_system \<Rightarrow> string \<Rightarrow> fs_error + string list" where
  "readdirSync fs p =
     (case fs p of
        None \<Rightarrow> Inl ENOENT
      | Some (RegularFile _) \<Rightarrow> Inl ENOTDIR
      | Some (Directory entries) \<Rightarrow> Inr entries)"

text \<open>
  The two shapes of probe in the request handler:
  \<^verbatim>\<open>fs.stat(p).then((stat) => (stat.isFile() ? p : null)).catch(() => null)\<close> and
  \<^verbatim>\<open>fs.stat(p).then(() => p).catch(() => null)\<close>.
\<close>

definition statIsFile :: "file_system \<Rightarrow> string \<Rightarrow> string option" where
  "statIsFile fs p = (case fs p of None \<Rightarrow> None | Some n \<Rightarrow> if isFile n then Some p else None)"

definition statExists :: "file_system \<Rightarrow> string \<Rightarrow> string option" where
  "statExists fs p = (case fs p of None \<Rightarrow> None | Some n \<Rightarrow> Some p)"

text \<open>
  Truthiness of a value that is a string or \<^verbatim>\<open>null\<close>, and the operator \<^verbatim>\<open>||\<close> on two such
  values.
\<close>

definition truthy :: "string option \<Rightarrow> bool" where
  "truthy v = (case v of None \<Rightarrow> False | Some s \<Rightarrow> s \<noteq> [])"

definition orElse :: "string option \<Rightarrow> string option \<Rightarrow> string option" where
  "orElse a b = (if truthy a then a else b)"

subsection \<open>Configuration, library functions and server state\<close>

text \<open>
  \<^verbatim>\<open>DevOptions\<close>. An entry of \<^verbatim>\<open>paths\<close> is \<^verbatim>\<open>[pathStart]\<close> or \<^verbatim>\<open>[pathStart, pathEnd]\<close>.
\<close>

record DevOptions =
  cwd :: string
  port :: nat
  publicDir :: string
  fallback :: string
  paths :: "(string \<times> string option) list"

text \<open>
  The functions of Node and of Babel that the server calls, as parameters:
  \<^verbatim>\<open>url.parse(u).pathname\<close>, \<^verbatim>\<open>decodeURI\<close> (no result when it throws),
  \<^verbatim>\<open>path.join\<close> of two paths, \<^verbatim>\<open>path.parse(p).ext\<close>, and
  \<^verbatim>\<open>babel.transformAsync(contents, {...babelConfig, filename})\<close>, which throws or
  resolves to a result object or to \<^verbatim>\<open>null\<close>.
\<close>

record node_lib =
  url_pathname :: "string \<Rightarrow> string"
  decodeURI :: "string \<Rightarrow> string option"
  path_join :: "string \<Rightarrow> string \<Rightarrow> string"
  path_ext :: "string \<Rightarrow> string"
  transformAsync :: "string \<Rightarrow> string \<Rightarrow> babel_error + BabelFileResult option"

text \<open>
  A request: its method, its URL, and the identity of its response object \<^verbatim>\<open>res\<close> (what the
  live-reload list holds).
\<close>

record request =
  httpMethod :: string
  url :: string
  res :: nat

text \<open>
  The mutable state: the file cache, the failed builds, the live-reload clients, and, as
  logs, the events emitted on the message bus and the texts written to live-reload
  responses.
\<close>

record server =
  FILE_CACHE :: "string \<rightharpoonup> string"
  babelFileErrors :: "string \<rightharpoonup> babel_error"
  liveReloadClients :: "nat list"
  messageBus :: "event list"
  written :: "(nat \<times> string) list"

text \<open>
  What the client gets: a file with status 200 (the extension gives the content type and
  the encoding), an error status, the open event stream of \<^verbatim>\<open>/livereload\<close>, or nothing at
  all when the handler throws before it answers.
\<close>

datatype response =
    FileResponse string string
  | ErrorResponse nat
  | EventStream
  | NoResponse

definition LIVE_RELOAD_SNIPPET :: string where
  "LIVE_RELOAD_SNIPPET =
     [CHR 0x0A] @
     ''  <script>'' @ [CHR 0x0A] @
     ''    const source = new EventSource('' @ [CHR 0x27] @ ''/livereload'' @ [CHR 0x27] @ '');'' @ [CHR 0x0A] @
     ''    const reload = () => location.reload(true);'' @ [CHR 0x0A] @
     ''    source.onmessage = reload;'' @ [CHR 0x0A] @
     ''    source.onerror = () => (source.onopen = reload);'' @ [CHR 0x0A] @
     ''    console.log('' @ [CHR 0x27] @ ''[snowpack] listening for file changes'' @ [CHR 0x27] @ '');'' @ [CHR 0x0A] @
     ''  </script>'' @ [CHR 0x0A]"

definition getEncodingType :: "string \<Rightarrow> encoding" where
  "getEncodingType ext =
     (if ext = ''.js'' \<or> ext = ''.css'' \<or> ext = ''.html'' then utf8 else binary)"

definition sendFile :: "string \<Rightarrow> string \<Rightarrow> response" where
  "sendFile file ext = FileResponse file ext"

definition sendError :: "nat \<Rightarrow> response" where
  "sendError status = ErrorResponse status"

text \<open>\<^verbatim>\<open>sendMessage\<close>: the two writes on a live-reload response.\<close>

definition sendMessage :: "nat \<Rightarrow> string \<Rightarrow> string \<Rightarrow> (nat \<times> string) list" where
  "sendMessage r channel data =
     [(r, ''event: '' @ channel @ [CHR 0x0A] @ ''id: 0'' @ [CHR 0x0A] @ ''data: '' @ data @ [CHR 0x0A]),
      (r, [CHR 0x0A, CHR 0x0A])]"

definition emit :: "event \<Rightarrow> server \<Rightarrow> server" where
  "emit e s = s\<lparr>messageBus := messageBus s @ [e]\<rparr>"

subsection \<open>The Babel build step\<close>

text \<open>
  \<^verbatim>\<open>buildBabelFile\<close> returns \<^verbatim>\<open>[err]\<close> (here \<open>Inl err\<close>) or \<^verbatim>\<open>[null, result]\<close> (here
  \<open>Inr result\<close>).
\<close>

definition buildBabelFile ::
  "node_lib \<Rightarrow> string \<Rightarrow> string \<Rightarrow> server \<Rightarrow> (babel_error + BabelFileResult option) \<times> server" where
  "buildBabelFile L fileLoc fileContents s =
     (let s1 = emit (BABEL_START fileLoc) s in
      case transformAsync L fileContents fileLoc of
        Inr result \<Rightarrow>
          (Inr result,
           emit (BABEL_FINISH fileLoc result)
             (s1\<lparr>babelFileErrors := (babelFileErrors s1)(fileLoc := None)\<rparr>))
      | Inl err \<Rightarrow>
          (Inl err,
           emit (BABEL_ERROR fileLoc err)
             (s1\<lparr>babelFileErrors := (babelFileErrors s1)(fileLoc \<mapsto> err)\<rparr>)))"

subsection \<open>The request handler\<close>

text \<open>
  One round of the loop over \<^verbatim>\<open>paths\<close>: the pair is \<^verbatim>\<open>requestedFile\<close> and \<^verbatim>\<open>isSrc\<close>.
\<close>

definition mapPath ::
  "node_lib \<Rightarrow> DevOptions \<Rightarrow> string \<Rightarrow> string \<Rightarrow> string \<times> string option \<Rightarrow>
   string \<times> bool \<Rightarrow> string \<times> bool" where
  "mapPath L opts reqPath resource m st =
     (case m of (pathStart, pathEnd) \<Rightarrow>
        if startsWith reqPath pathStart then
          (let requestedFile = path_join L (cwd opts) resource in
           (if truthy pathEnd
            then (case pathEnd of Some e \<Rightarrow> replace requestedFile pathStart e | None \<Rightarrow> requestedFile)
            else requestedFile,
            True))
        else st)"

definition requestedFileOf :: "node_lib \<Rightarrow> DevOptions \<Rightarrow> string \<Rightarrow> string \<Rightarrow> string \<times> bool" where
  "requestedFileOf L opts reqPath resource =
     fold (mapPath L opts reqPath resource) (paths opts)
       (path_join L (publicDir opts) resource, False)"

text \<open>
  From the cache miss to \<^verbatim>\<open>if (!fileLoc)\<close>: the file to read, the extension to serve it
  under and \<^verbatim>\<open>isRoute\<close>; no result where the handler answers 404.
\<close>

definition resolveFile ::
  "node_lib \<Rightarrow> DevOptions \<Rightarrow> file_system \<Rightarrow> string \<Rightarrow> string \<Rightarrow> bool \<Rightarrow>
   (string \<times> string \<times> bool) option" where
  "resolveFile L opts fs requestedFile requestedFileExt isSrc =
     (let fileLoc0 = statIsFile fs requestedFile;
          fileLoc1 =
            (if \<not> truthy fileLoc0 \<and> isSrc then
               orElse (orElse (orElse fileLoc0
                 (statExists fs (replaceJsExt requestedFile ''.ts'')))
                 (statExists fs (replaceJsExt requestedFile ''.jsx'')))
                 (statExists fs (replaceJsExt requestedFile ''.tsx''))
             else fileLoc0);
          fileLoc2 =
            (if \<not> truthy fileLoc1 \<and> requestedFileExt = [] then
               orElse (orElse (orElse
                 (statExists fs (requestedFile @ ''.html''))
                 (statExists fs (requestedFile @ ''/index.html'')))
                 (statExists fs (requestedFile @ ''index.html'')))
                 (statIsFile fs (path_join L (publicDir opts) (fallback opts)))
             else fileLoc1);
          isRoute = (\<not> truthy fileLoc1 \<and> requestedFileExt = [] \<and> truthy fileLoc2);
          ext = (if isRoute then ''.html'' else requestedFileExt)
      in case fileLoc2 of
           None \<Rightarrow> None
         | Some fileLoc \<Rightarrow> if fileLoc = [] then None else Some (fileLoc, ext, isRoute))"

text \<open>From \<^verbatim>\<open>readFile\<close> to the end of the handler.\<close>

definition serveFile ::
  "node_lib \<Rightarrow> file_system \<Rightarrow> string \<Rightarrow> string \<Rightarrow> bool \<Rightarrow> server \<Rightarrow> response \<times> server" where
  "serveFile L fs fileLoc requestedFileExt isRoute s =
     (case readFile fs fileLoc (getEncodingType requestedFileExt) of
        None \<Rightarrow> (sendError 500, s)
      | Some contents \<Rightarrow>
          if contents = [] then (sendError 404, s)
          else
            (let fileContents = (if isRoute then contents @ LIVE_RELOAD_SNIPPET else contents);
                 s1 = (if isRoute then emit NEW_SESSION s else s)
             in if requestedFileExt = ''.js'' \<and> \<not> str_includes fileLoc ''/web_modules/'' then
                  (case buildBabelFile L fileLoc fileContents s1 of
                     (Inl babelErr, s2) \<Rightarrow> (sendError 500, s2)
                   | (Inr None, s2) \<Rightarrow> (NoResponse, s2)
                   | (Inr (Some babelResult), s2) \<Rightarrow>
                       (case code babelResult of
                          None \<Rightarrow> (sendError 500, s2)
                        | Some responseContents \<Rightarrow>
                            if responseContents = [] then (sendError 500, s2)
                            else (sendFile responseContents requestedFileExt,
                                  s2\<lparr>FILE_CACHE := (FILE_CACHE s2)(fileLoc \<mapsto> responseContents)\<rparr>)))
                else (sendFile fileContents requestedFileExt,
                      s1\<lparr>FILE_CACHE := (FILE_CACHE s1)(fileLoc \<mapsto> fileContents)\<rparr>)))"

text \<open>
  The body of the \<^verbatim>\<open>createServer\<close> callback. A \<^verbatim>\<open>decodeURI\<close> that throws, like
  \<^verbatim>\<open>babelResult.code\<close> on a \<^verbatim>\<open>null\<close> result above, rejects the callback's promise before
  anything is written. The keep-alive pings of \<^verbatim>\<open>setInterval\<close> are left out.
\<close>

definition handleRequest ::
  "node_lib \<Rightarrow> DevOptions \<Rightarrow> file_system \<Rightarrow> request \<Rightarrow> server \<Rightarrow> response \<times> server" where
  "handleRequest L opts fs req s =
     (let reqPath = url_pathname L (url req) in
      if reqPath = ''/livereload'' then
        (EventStream,
         s\<lparr>written := written s @ sendMessage (res req) ''connected'' ''ready'',
           liveReloadClients := liveReloadClients s @ [res req]\<rparr>)
      else
        (case decodeURI L reqPath of
           None \<Rightarrow> (NoResponse, s)
         | Some resource \<Rightarrow>
             (let requestedFileExt = toLowerCase (path_ext L resource) in
              case requestedFileOf L opts reqPath resource of
                (requestedFile, isSrc) \<Rightarrow>
                  (case FILE_CACHE s requestedFile of
                     Some file \<Rightarrow> (sendFile file requestedFileExt, s)
                   | None \<Rightarrow>
                       (case resolveFile L opts fs requestedFile requestedFileExt isSrc of
                          None \<Rightarrow> (sendError 404, s)
                        | Some (fileLoc, ext, isRoute) \<Rightarrow> serveFile L fs fileLoc ext isRoute s)))))"

text \<open>The listener of \<^verbatim>\<open>res.on('finish', ...)\<close>, and the handler with it.\<close>

definition onFinish :: "request \<Rightarrow> response \<Rightarrow> server \<Rightarrow> server" where
  "onFinish req r s =
     (case r of
        ErrorResponse statusCode \<Rightarrow>
          (if statusCode \<noteq> 200 then emit (SERVER_RESPONSE (httpMethod req) (url req) statusCode) s
           else s)
      | _ \<Rightarrow> s)"

definition requestListener ::
  "node_lib \<Rightarrow> DevOptions \<Rightarrow> file_system \<Rightarrow> request \<Rightarrow> server \<Rightarrow> response \<times> server" where
  "requestListener L opts fs req s =
     (case handleRequest L opts fs req s of (r, s') \<Rightarrow> (r, onFinish req r s'))"

subsection \<open>The watch callback\<close>

text \<open>
  The loop \<^verbatim>\<open>while (liveReloadClients.length > 0) sendMessage(liveReloadClients.pop(), ...)\<close>
  on the client list and the log of writes.
\<close>

function drain :: "nat list \<Rightarrow> (nat \<times> string) list \<Rightarrow> nat list \<times> (nat \<times> string) list" where
  "drain clients w =
     (if length clients > 0
      then drain (butlast clients) (w @ sendMessage (last clients) ''message'' ''reload'')
      else (clients, w))"
  by pat_completeness auto
termination
  by (relation "measure (\<lambda>(clients, w). length clients)") auto

declare drain.simps [simp del]

definition onWatchEvent ::
  "node_lib \<Rightarrow> DevOptions \<Rightarrow> file_system \<Rightarrow> string \<Rightarrow> string \<Rightarrow> server \<Rightarrow> server" where
  "onWatchEvent L opts fs event fileLoc s =
     (let requestId = (if startsWith fileLoc (cwd opts) then replaceSourceExt fileLoc else fileLoc);
          s1 = s\<lparr>FILE_CACHE := (FILE_CACHE s)(requestId := None)\<rparr>
      in case drain (liveReloadClients s1) (written s1) of
           (clients, w) \<Rightarrow>
             (let s2 = s1\<lparr>liveReloadClients := clients, written := w\<rparr> in
              case babelFileErrors s2 fileLoc of
                None \<Rightarrow> s2
              | Some _ \<Rightarrow>
                  (case readFile fs fileLoc utf8 of
                     None \<Rightarrow> s2\<lparr>babelFileErrors := (babelFileErrors s2)(fileLoc := None)\<rparr>
                   | Some fileContents \<Rightarrow>
                       if fileContents = []
                       then s2\<lparr>babelFileErrors := (babelFileErrors s2)(fileLoc := None)\<rparr>
                       else snd (buildBabelFile L fileLoc fileContents s2))))"

subsection \<open>Watching directories\<close>

text \<open>
  \<^verbatim>\<open>fs.watch\<close> attaches one watcher, recursive or not, and throws when there is nothing at
  the path. \<^verbatim>\<open>watch\<close> returns the watchers it attached, and the error it threw, if any.
\<close>

datatype watcher = FSWatcher string bool

definition fsWatch :: "file_system \<Rightarrow> string \<Rightarrow> bool \<Rightarrow> watcher list \<times> fs_error option" where
  "fsWatch fs fileLoc recursive =
     (case fs fileLoc of
        None \<Rightarrow> ([], Some ENOENT)
      | Some n \<Rightarrow> ([FSWatcher fileLoc recursive], None))"

text \<open>\<^verbatim>\<open>entries.forEach(f)\<close>: a call that throws ends the loop.\<close>

fun forEach ::
  "('a \<Rightarrow> watcher list \<times> fs_error option) \<Rightarrow> 'a list \<Rightarrow> watcher list \<times> fs_error option" where
  "forEach f [] = ([], None)"
| "forEach f (x # xs) =
     (case f x of
        (ws, Some e) \<Rightarrow> (ws, Some e)
      | (ws, None) \<Rightarrow> (case forEach f xs of (ws', r) \<Rightarrow> (ws @ ws', r)))"

function watch ::
  "node_lib \<Rightarrow> string \<Rightarrow> file_system \<Rightarrow> string \<Rightarrow> watcher list \<times> fs_error option" where
  "watch L platform fs fileLoc =
     (if platform \<noteq> ''linux'' then fsWatch fs fileLoc True
      else if endsWith fileLoc ''node_modules'' then ([], None)
      else
        (case fs fileLoc of
           None \<Rightarrow> ([], Some ENOENT)
         | Some n \<Rightarrow>
             if isDirectory n then fsWatch fs fileLoc False
             else
               (case readdirSync fs fileLoc of
                  Inl e \<Rightarrow> ([], Some e)
                | Inr entries \<Rightarrow>
                    forEach (\<lambda>entry. watch L platform fs (path_join L fileLoc entry)) entries)))"
  by pat_completeness auto
termination
  by (relation "{}")
    (auto simp: readdirSync_def isDirectory_def split: node.splits option.splits)

declare watch.simps [simp del]

text \<open>
  The end of \<^verbatim>\<open>command\<close>: the working directory is watched unless its path starts with
  that of the public directory, and the public directory unless its path starts with
  that of the working directory. The watchers attached, in that order.
\<close>

definition watchRoots :: "node_lib \<Rightarrow> string \<Rightarrow> DevOptions \<Rightarrow> file_system \<Rightarrow> watcher list" where
  "watchRoots L platform opts fs =
     (if \<not> startsWith (cwd opts) (publicDir opts)
      then fst (watch L platform fs (cwd opts)) else []) @
     (if \<not> startsWith (publicDir opts) (cwd opts)
      then fst (watch L platform fs (publicDir opts)) else [])"

text \<open>
  What \<^verbatim>\<open>fs.watch\<close> does when the file at an absolute path changes: the listener gets the
  name of the file relative to the watched directory. A watcher that is not recursive
  reports the entries of its own directory only. The listener of every watcher is
  \<^verbatim>\<open>onWatchEvent\<close>.
\<close>

definition watcherFilename :: "watcher \<Rightarrow> string \<Rightarrow> string option" where
  "watcherFilename w p =
     (case w of FSWatcher dir recursive \<Rightarrow>
        if prefix (dir @ ''/'') p then
          (let filename = drop (length dir + 1) p in
           if filename = [] then None
           else if recursive then Some filename
           else if CHR ''/'' \<in> set filename then None
           else Some filename)
        else None)"

definition notifyChange ::
  "node_lib \<Rightarrow> DevOptions \<Rightarrow> file_system \<Rightarrow> watcher list \<Rightarrow> string \<Rightarrow> server \<Rightarrow> server" where
  "notifyChange L opts fs watchers p s =
     fold (\<lambda>w s'. case watcherFilename w p of
                    None \<Rightarrow> s'
                  | Some filename \<Rightarrow> onWatchEvent L opts fs ''change'' filename s')
       watchers s"

subsection \<open>The library functions on POSIX paths\<close>

text \<open>
  An instance of the library functions, for running the model on concrete requests:
  \<^verbatim>\<open>path.join\<close> with the normalisation of \<^verbatim>\<open>path.posix\<close> (empty and \<^verbatim>\<open>.\<close> segments
  dropped, \<^verbatim>\<open>..\<close> resolved), the extension of the last path component as
  \<^verbatim>\<open>path.posix.parse\<close> finds it (none for a name without a dot, for a name that starts
  with its only dot and for \<^verbatim>\<open>..\<close>, except that \<^verbatim>\<open>..\<close> right under the root has the
  extension \<^verbatim>\<open>.\<close>), the path name of
  a request target up to its query, and \<^verbatim>\<open>decodeURI\<close> on texts without escapes (the
  instance decodes nothing: it treats a text with a percent sign as malformed).
\<close>

fun splitSlash :: "string \<Rightarrow> string list" where
  "splitSlash [] = [[]]"
| "splitSlash (c # cs) =
     (if c = CHR ''/'' then [] # splitSlash cs
      else (case splitSlash cs of [] \<Rightarrow> [[c]] | seg # segs \<Rightarrow> (c # seg) # segs))"

fun normalizeString :: "bool \<Rightarrow> string list \<Rightarrow> string list \<Rightarrow> string list" where
  "normalizeString allowAboveRoot acc [] = rev acc"
| "normalizeString allowAboveRoot acc (seg # segs) =
     (if seg = [] \<or> seg = ''.'' then normalizeString allowAboveRoot acc segs
      else if seg = ''..'' then
        (case acc of
           [] \<Rightarrow> normalizeString allowAboveRoot (if allowAboveRoot then [seg] else []) segs
         | lastSeg # below \<Rightarrow>
             if lastSeg = ''..''
             then normalizeString allowAboveRoot (if allowAboveRoot then seg # acc else acc) segs
             else normalizeString allowAboveRoot below segs)
      else normalizeString allowAboveRoot (seg # acc) segs)"

definition joinSlash :: "string list \<Rightarrow> string" where
  "joinSlash segs =
     (case segs of [] \<Rightarrow> [] | s # ss \<Rightarrow> s @ concat (map (\<lambda>t. CHR ''/'' # t) ss))"

definition posix_normalize :: "string \<Rightarrow> string" where
  "posix_normalize p =
     (if p = [] then ''.''
      else
        (let isAbsolute = (hd p = CHR ''/'');
             trailingSeparator = (last p = CHR ''/'');
             q = joinSlash (normalizeString (\<not> isAbsolute) [] (splitSlash p))
         in if q = [] then (if isAbsolute then ''/'' else if trailingSeparator then ''./'' else ''.'')
            else (if isAbsolute then ''/'' else []) @ q @ (if trailingSeparator then ''/'' else [])))"

definition posix_join :: "string \<Rightarrow> string \<Rightarrow> string" where
  "posix_join a b =
     posix_normalize (if a = [] then b else if b = [] then a else a @ ''/'' @ b)"

definition posix_ext :: "string \<Rightarrow> string" where
  "posix_ext p =
     (let isAbsolute = prefix ''/'' p;
          body = (if isAbsolute then tl p else p);
          trimmed = rev (dropWhile (\<lambda>c. c = CHR ''/'') (rev body));
          base = rev (takeWhile (\<lambda>c. c \<noteq> CHR ''/'') (rev trimmed));
          underRoot = (isAbsolute \<and> CHR ''/'' \<notin> set trimmed);
          name = rev (drop 1 (dropWhile (\<lambda>c. c \<noteq> CHR ''.'') (rev base)));
          ext = CHR ''.'' # rev (takeWhile (\<lambda>c. c \<noteq> CHR ''.'') (rev base))
      in if CHR ''.'' \<in> set base \<and> name \<noteq> [] \<and> (underRoot \<or> base \<noteq> ''..'')
         then ext else [])"

definition posix_pathname :: "string \<Rightarrow> string" where
  "posix_pathname u = takeWhile (\<lambda>c. c \<noteq> CHR ''?'' \<and> c \<noteq> CHR ''#'') u"

definition plain_decodeURI :: "string \<Rightarrow> string option" where
  "plain_decodeURI s = (if CHR ''%'' \<in> set s then None else Some s)"

definition posix :: "(string \<Rightarrow> string \<Rightarrow> babel_error + BabelFileResult option) \<Rightarrow> node_lib" where
  "posix babel =
     \<lparr>url_pathname = posix_pathname, decodeURI = plain_decodeURI, path_join = posix_join,
      path_ext = posix_ext, transformAsync = babel\<rparr>"

text \<open>The state of a server that has just started.\<close>

definition initial :: server where
  "initial =
     \<lparr>FILE_CACHE = Map.empty, babelFileErrors = Map.empty, liveReloadClients = [],
      messageBus = [], written = []\<rparr>"

subsection \<open>Scenario: a component served through a source-root mapping\<close>

text \<open>
  The working directory \<^verbatim>\<open>/proj\<close> holds \<^verbatim>\<open>src/components/app.tsx\<close> and no \<^verbatim>\<open>app.js\<close>; requests
  under \<^verbatim>\<open>/components/\<close> are mapped to \<^verbatim>\<open>/src/components/\<close>; Babel compiles every file.
\<close>

definition app_opts :: DevOptions where
  "app_opts =
     \<lparr>cwd = ''/proj'', port = 8080, publicDir = ''/proj/public'', fallback = ''index.html'',
      paths = [(''/components/'', Some ''/src/components/'')]\<rparr>"

definition app_fs :: file_system where
  "app_fs =
     map_of
       [(''/proj'', Directory [''public'', ''src'']),
        (''/proj/public'', Directory [''index.html'']),
        (''/proj/public/index.html'', RegularFile (Some ''<div id=app></div>'')),
        (''/proj/src'', Directory [''components'']),
        (''/proj/src/components'', Directory [''app.tsx'']),
        (''/proj/src/components/app.tsx'', RegularFile (Some ''export const x: number = 1;''))]"

definition app_babel :: "string \<Rightarrow> string \<Rightarrow> babel_error + BabelFileResult option" where
  "app_babel contents filename = Inr (Some \<lparr>code = Some ''export const x = 1;''\<rparr>)"

definition app_request :: request where
  "app_request = \<lparr>httpMethod = ''GET'', url = ''/components/app.js'', res = 0\<rparr>"


definition app_served :: server where
  "app_served = snd (requestListener (posix app_babel) app_opts app_fs app_request initial)"

text \<open>A page route of the same project: \<^verbatim>\<open>/about\<close> has no file of its own.\<close>

definition about_request :: request where
  "about_request = \<lparr>httpMethod = ''GET'', url = ''/about'', res = 0\<rparr>"

subsection \<open>Scenario: one prefix registered twice\<close>

definition dup_opts :: DevOptions where
  "dup_opts =
     \<lparr>cwd = ''/proj'', port = 8080, publicDir = ''/proj/public'', fallback = ''index.html'',
      paths = [(''/src/'', Some ''/src/''), (''/src/'', Some ''/lib/'')]\<rparr>"

subsection \<open>Scenario: a source file that does not compile\<close>

text \<open>
  Everything under \<^verbatim>\<open>/src/\<close> is served from the working directory; Babel rejects
  \<^verbatim>\<open>src/broken.js\<close>. Later the file is saved again.
\<close>

definition src_opts :: DevOptions where
  "src_opts =
     \<lparr>cwd = ''/proj'', port = 8080, publicDir = ''/proj/public'', fallback = ''index.html'',
      paths = [(''/src/'', None)]\<rparr>"

definition broken_fs :: file_system where
  "broken_fs =
     map_of
       [(''/proj'', Directory [''public'', ''src'']),
        (''/proj/public'', Directory [''index.html'', ''empty.css'']),
        (''/proj/public/index.html'', RegularFile (Some ''<div id=app></div>'')),
        (''/proj/public/empty.css'', RegularFile (Some [])),
        (''/proj/src'', Directory [''broken.js'']),
        (''/proj/src/broken.js'', RegularFile (Some ''const = ;''))]"

definition broken_babel :: "string \<Rightarrow> string \<Rightarrow> babel_error + BabelFileResult option" where
  "broken_babel contents filename = Inl (BabelError ''Unexpected token'')"

definition broken_request :: request where
  "broken_request = \<lparr>httpMethod = ''GET'', url = ''/src/broken.js'', res = 0\<rparr>"

definition broken_served :: server where
  "broken_served =
     snd (requestListener (posix broken_babel) src_opts broken_fs broken_request initial)"

definition empty_request :: request where
  "empty_request = \<lparr>httpMethod = ''GET'', url = ''/empty.css'', res = 0\<rparr>"

subsection \<open>Scenario: a directory under a source root\<close>

text \<open>
  \<^verbatim>\<open>src/app\<close> is a directory with an \<^verbatim>\<open>index.html\<close>; the request is for \<^verbatim>\<open>/src/app\<close>.
\<close>

definition dir_fs :: file_system where
  "dir_fs =
     map_of
       [(''/proj'', Directory [''public'', ''src'']),
        (''/proj/public'', Directory [''index.html'']),
        (''/proj/public/index.html'', RegularFile (Some ''<div id=app></div>'')),
        (''/proj/src'', Directory [''app'']),
        (''/proj/src/app'', Directory [''index.html'']),
        (''/proj/src/app/index.html'', RegularFile (Some ''<h1>app</h1>''))]"

definition dir_request :: request where
  "dir_request = \<lparr>httpMethod = ''GET'', url = ''/src/app'', res = 0\<rparr>"

subsection \<open>Scenario: three live-reload clients\<close>

definition livereload_request :: "nat \<Rightarrow> request" where
  "livereload_request r = \<lparr>httpMethod = ''GET'', url = ''/livereload'', res = r\<rparr>"

definition three_clients :: server where
  "three_clients =
     snd (requestListener (posix app_babel) app_opts app_fs (livereload_request 3)
       (snd (requestListener (posix app_babel) app_opts app_fs (livereload_request 2)
         (snd (requestListener (posix app_babel) app_opts app_fs (livereload_request 1)
           initial)))))"

subsection \<open>Scenario: chunks of type-checker output\<close>

definition tsc_report :: string where
  "tsc_report = ''[10:00:00] Found 3 errors. Watching for file changes.''"

definition tsc_tail :: string where
  "tsc_tail = ''Found 3 errors. Watching for file changes.''"

section \<open>Properties\<close>

subsection \<open>What the steps of the handler change\<close>

lemma emit_fields [simp]:
  "FILE_CACHE (emit e s) = FILE_CACHE s"
  "babelFileErrors (emit e s) = babelFileErrors s"
  "liveReloadClients (emit e s) = liveReloadClients s"
  "written (emit e s) = written s"
  "messageBus (emit e s) = messageBus s @ [e]"
  by (simp_all add: emit_def)

lemma buildBabelFile_keeps [simp]:
  "FILE_CACHE (snd (buildBabelFile L fileLoc fileContents s)) = FILE_CACHE s"
  "liveReloadClients (snd (buildBabelFile L fileLoc fileContents s)) = liveReloadClients s"
  "written (snd (buildBabelFile L fileLoc fileContents s)) = written s"
  by (simp_all add: buildBabelFile_def Let_def split: sum.splits)

lemma buildBabelFile_fst [simp]:
  "fst (buildBabelFile L fileLoc fileContents s) = transformAsync L fileContents fileLoc"
  by (simp add: buildBabelFile_def Let_def split: sum.splits)

lemma onFinish_fields [simp]:
  "FILE_CACHE (onFinish req r s) = FILE_CACHE s"
  "babelFileErrors (onFinish req r s) = babelFileErrors s"
  "liveReloadClients (onFinish req r s) = liveReloadClients s"
  "written (onFinish req r s) = written s"
  by (simp_all add: onFinish_def split: response.splits)

lemma requestListener_parts:
  "fst (requestListener L opts fs req s) = fst (handleRequest L opts fs req s)"
  "FILE_CACHE (snd (requestListener L opts fs req s)) = FILE_CACHE (snd (handleRequest L opts fs req s))"
  "written (snd (requestListener L opts fs req s)) = written (snd (handleRequest L opts fs req s))"
  "liveReloadClients (snd (requestListener L opts fs req s)) = liveReloadClients (snd (handleRequest L opts fs req s))"
  "babelFileErrors (snd (requestListener L opts fs req s)) = babelFileErrors (snd (handleRequest L opts fs req s))"
  by (simp_all add: requestListener_def split: prod.splits)

lemma handleRequest_miss:
  assumes "url_pathname L (url req) \<noteq> ''/livereload''"
    and "decodeURI L (url_pathname L (url req)) = Some resource"
    and "requestedFileOf L opts (url_pathname L (url req)) resource = (requestedFile, isSrc)"
    and "FILE_CACHE s requestedFile = None"
  shows "handleRequest L opts fs req s =
     (case resolveFile L opts fs requestedFile (toLowerCase (path_ext L resource)) isSrc of
        None \<Rightarrow> (sendError 404, s)
      | Some (fileLoc, ext, isRoute) \<Rightarrow> serveFile L fs fileLoc ext isRoute s)"
  using assms by (simp add: handleRequest_def Let_def)

lemma handleRequest_hit:
  assumes "url_pathname L (url req) \<noteq> ''/livereload''"
    and "decodeURI L (url_pathname L (url req)) = Some resource"
    and "requestedFileOf L opts (url_pathname L (url req)) resource = (requestedFile, isSrc)"
    and "FILE_CACHE s requestedFile = Some file"
  shows "handleRequest L opts fs req s = (sendFile file (toLowerCase (path_ext L resource)), s)"
  using assms by (simp add: handleRequest_def Let_def)

lemma resolveFile_route_ext:
  "resolveFile L opts fs requestedFile requestedFileExt isSrc = Some (fileLoc, ext, isRoute) \<Longrightarrow>
   ext = (if isRoute then ''.html'' else requestedFileExt)"
  by (auto simp: resolveFile_def Let_def split: option.splits if_splits)

lemma serveFile_empty:
  "readFile fs fileLoc (getEncodingType ext) = Some [] \<Longrightarrow>
   serveFile L fs fileLoc ext isRoute s = (sendError 404, s)"
  by (simp add: serveFile_def)

lemma buildBabelFile_eqD:
  "buildBabelFile L fileLoc fileContents s = (r, s2) \<Longrightarrow>
   r = transformAsync L fileContents fileLoc \<and> FILE_CACHE s2 = FILE_CACHE s \<and>
   liveReloadClients s2 = liveReloadClients s \<and> written s2 = written s"
  using buildBabelFile_fst [of L fileLoc fileContents s]
    buildBabelFile_keeps [of L fileLoc fileContents s]
  by simp

lemma buildBabelFile_messageBus:
  "messageBus (snd (buildBabelFile L fileLoc fileContents s)) =
     messageBus s @
     (case transformAsync L fileContents fileLoc of
        Inr result \<Rightarrow> [BABEL_START fileLoc, BABEL_FINISH fileLoc result]
      | Inl err \<Rightarrow> [BABEL_START fileLoc, BABEL_ERROR fileLoc err])"
  by (simp add: buildBabelFile_def Let_def split: sum.splits)

lemma buildBabelFile_errors:
  "babelFileErrors (snd (buildBabelFile L fileLoc fileContents s)) =
     (case transformAsync L fileContents fileLoc of
        Inr result \<Rightarrow> (babelFileErrors s)(fileLoc := None)
      | Inl err \<Rightarrow> (babelFileErrors s)(fileLoc \<mapsto> err))"
  by (simp add: buildBabelFile_def Let_def split: sum.splits)

lemma drain_all:
  "drain clients w =
     ([], w @ concat (map (\<lambda>c. sendMessage c ''message'' ''reload'') (rev clients)))"
proof (induction clients arbitrary: w rule: rev_induct)
  case Nil
  show ?case by (simp add: drain.simps)
next
  case (snoc c cs)
  have "drain (cs @ [c]) w = drain cs (w @ sendMessage c ''message'' ''reload'')"
    by (subst drain.simps) simp
  then show ?case by (simp add: snoc.IH)
qed

lemma serveFile_written:
  "written (snd (serveFile L fs fileLoc ext isRoute s)) = written s"
  unfolding serveFile_def Let_def
  by (auto split: option.splits sum.splits prod.splits dest!: buildBabelFile_eqD)

lemma handleRequest_written:
  "url_pathname L (url req) \<noteq> ''/livereload'' \<Longrightarrow>
   written (snd (handleRequest L opts fs req s)) = written s"
  by (auto simp: handleRequest_def Let_def serveFile_written split: option.splits prod.splits)

lemma serveFile_cache:
  assumes "serveFile L fs fileLoc ext isRoute s = (r, s')"
  shows "FILE_CACHE s' = FILE_CACHE s \<or>
    (\<exists>body. r = FileResponse body ext \<and> body \<noteq> [] \<and>
       FILE_CACHE s' = (FILE_CACHE s)(fileLoc \<mapsto> body))"
  using assms unfolding serveFile_def Let_def sendFile_def sendError_def
  by (auto split: option.splits sum.splits prod.splits if_splits dest!: buildBabelFile_eqD)

lemma requestListener_cache:
  assumes "requestListener L opts fs req s = (r, s')"
  shows "FILE_CACHE s' = FILE_CACHE s \<or>
    (\<exists>fileLoc body ext. r = FileResponse body ext \<and> body \<noteq> [] \<and>
       FILE_CACHE s' = (FILE_CACHE s)(fileLoc \<mapsto> body))"
proof -
  obtain r0 s0 where h: "handleRequest L opts fs req s = (r0, s0)" by fastforce
  with assms have r: "r = r0" and c: "FILE_CACHE s' = FILE_CACHE s0"
    by (auto simp: requestListener_def)
  from h have "FILE_CACHE s0 = FILE_CACHE s \<or>
    (\<exists>fileLoc body ext. r0 = FileResponse body ext \<and> body \<noteq> [] \<and>
       FILE_CACHE s0 = (FILE_CACHE s)(fileLoc \<mapsto> body))"
    unfolding handleRequest_def Let_def
    by (auto split: option.splits prod.splits if_splits dest: serveFile_cache)
  with r c show ?thesis by simp
qed

subsection \<open>Source-root mappings: the last match decides\<close>

lemma mapPath_nomatch:
  "\<not> startsWith reqPath (fst m) \<Longrightarrow> mapPath L opts reqPath resource m st = st"
  by (cases m) (simp add: mapPath_def)

lemma mapPath_match:
  "startsWith reqPath pathStart \<Longrightarrow>
   mapPath L opts reqPath resource (pathStart, pathEnd) st =
     (case pathEnd of
        None \<Rightarrow> path_join L (cwd opts) resource
      | Some e \<Rightarrow>
          if e = [] then path_join L (cwd opts) resource
          else replace (path_join L (cwd opts) resource) pathStart e,
      True)"
  by (simp add: mapPath_def truthy_def Let_def split: option.splits)

lemma fold_mapPath:
  "fold (mapPath L opts reqPath resource) ps st =
     (case rev (filter (\<lambda>m. startsWith reqPath (fst m)) ps) of
        [] \<Rightarrow> st
      | (pathStart, pathEnd) # _ \<Rightarrow>
          (case pathEnd of
             None \<Rightarrow> path_join L (cwd opts) resource
           | Some e \<Rightarrow>
               if e = [] then path_join L (cwd opts) resource
               else replace (path_join L (cwd opts) resource) pathStart e,
           True))"
proof (induction ps rule: rev_induct)
  case Nil
  show ?case by simp
next
  case (snoc m ps)
  obtain pathStart pathEnd where m: "m = (pathStart, pathEnd)" by (cases m)
  show ?case
  proof (cases "startsWith reqPath pathStart")
    case True
    then show ?thesis by (simp add: m mapPath_match)
  next
    case False
    then show ?thesis using snoc.IH by (simp add: m mapPath_nomatch)
  qed
qed

text \<open>
  Claim C3. The loop over \<^verbatim>\<open>paths\<close> visits every mapping and recomputes the candidate
  file at each mapping whose prefix the request path starts with, so the outcome is
  that of the last such mapping alone, whatever the mappings before it did: the file is
  the join of the working directory and the resource, with the first occurrence of the
  mapping's prefix replaced by its rewrite when it has a non-empty one, and \<^verbatim>\<open>isSrc\<close> is
  set. With no matching mapping the candidate stays the file under the public
  directory. The list of matching mappings is read from its end.
\<close>

theorem requestedFile_last_match:
  "requestedFileOf L opts reqPath resource =
     (case rev (filter (\<lambda>m. startsWith reqPath (fst m)) (paths opts)) of
        [] \<Rightarrow> (path_join L (publicDir opts) resource, False)
      | (pathStart, pathEnd) # _ \<Rightarrow>
          (case pathEnd of
             None \<Rightarrow> path_join L (cwd opts) resource
           | Some e \<Rightarrow>
               if e = [] then path_join L (cwd opts) resource
               else replace (path_join L (cwd opts) resource) pathStart e,
           True))"
  unfolding requestedFileOf_def by (rule fold_mapPath)

text \<open>
  With \<^verbatim>\<open>/src/\<close> registered twice, first rewritten to \<^verbatim>\<open>/src/\<close> and then to \<^verbatim>\<open>/lib/\<close>, a
  request for \<^verbatim>\<open>/src/a.js\<close> is looked up under \<^verbatim>\<open>/proj/lib\<close>.
\<close>

theorem requestedFile_last_match_witness:
  "requestedFileOf (posix app_babel) dup_opts ''/src/a.js'' ''/src/a.js'' =
     (''/proj/lib/a.js'', True)"
proof -
  have "(case rev (filter (\<lambda>m. startsWith ''/src/a.js'' (fst m)) (paths dup_opts)) of
        [] \<Rightarrow> (path_join (posix app_babel) (publicDir dup_opts) ''/src/a.js'', False)
      | (pathStart, pathEnd) # _ \<Rightarrow>
          (case pathEnd of
             None \<Rightarrow> path_join (posix app_babel) (cwd dup_opts) ''/src/a.js''
           | Some e \<Rightarrow>
               if e = [] then path_join (posix app_babel) (cwd dup_opts) ''/src/a.js''
               else replace (path_join (posix app_babel) (cwd dup_opts) ''/src/a.js'') pathStart e,
           True)) = (''/proj/lib/a.js'', True)"
    by code_simp
  then show ?thesis
    using requestedFile_last_match [of "posix app_babel" dup_opts "''/src/a.js''" "''/src/a.js''"]
    by simp
qed

subsection \<open>Repeated requests and the cache\<close>

text \<open>
  A request whose candidate file is a key of the cache is answered from the cache and
  changes nothing: no probe, no build, no event.
\<close>

lemma requestListener_hit:
  assumes "url_pathname L (url req) \<noteq> ''/livereload''"
    and "decodeURI L (url_pathname L (url req)) = Some resource"
    and "requestedFileOf L opts (url_pathname L (url req)) resource = (requestedFile, isSrc)"
    and "FILE_CACHE s requestedFile = Some file"
  shows "requestListener L opts fs req s =
     (FileResponse file (toLowerCase (path_ext L resource)), s)"
  using handleRequest_hit [OF assms]
  by (simp add: requestListener_def onFinish_def sendFile_def)

lemma serveFile_other_key:
  "fileLoc \<noteq> requestedFile \<Longrightarrow>
   FILE_CACHE (snd (serveFile L fs fileLoc ext isRoute s)) requestedFile =
     FILE_CACHE s requestedFile"
  using serveFile_cache [of L fs fileLoc ext isRoute s]
  by (cases "serveFile L fs fileLoc ext isRoute s") auto

text \<open>
  A request that is resolved to a file other than its candidate file leaves the cache
  without an entry under the candidate file, whatever it answers: the same request again
  misses the cache again.
\<close>

lemma renamed_file_not_cached_under_request:
  assumes "url_pathname L (url req) \<noteq> ''/livereload''"
    and "decodeURI L (url_pathname L (url req)) = Some resource"
    and "requestedFileOf L opts (url_pathname L (url req)) resource = (requestedFile, isSrc)"
    and "FILE_CACHE s requestedFile = None"
    and "resolveFile L opts fs requestedFile (toLowerCase (path_ext L resource)) isSrc =
           Some (fileLoc, ext, isRoute)"
    and "fileLoc \<noteq> requestedFile"
  shows "FILE_CACHE (snd (requestListener L opts fs req s)) requestedFile = None"
  using handleRequest_miss [OF assms(1-4)] assms(4,5) serveFile_other_key [OF assms(6)]
  by (simp add: requestListener_parts)

text \<open>
  Claim C1, on the scenario of the specification. The handler looks the cache up under
  the candidate file \<^verbatim>\<open>/proj/src/components/app.js\<close> but stores the response under the
  file it read, \<^verbatim>\<open>/proj/src/components/app.tsx\<close>. So after the first request for
  \<^verbatim>\<open>/components/app.js\<close>, which resolves to \<^verbatim>\<open>app.tsx\<close> and is compiled, the cache has no
  entry under the candidate file, and the same request again is not a cache hit: it is
  resolved and compiled once more, as the second \<^verbatim>\<open>BABEL_START\<close> on the bus shows. The
  claim holds only where the candidate file itself is the file read.
\<close>

theorem app_repeat_request_misses_cache:
  "fst (requestListener (posix app_babel) app_opts app_fs app_request initial) =
     FileResponse ''export const x = 1;'' ''.js'' \<and>
   messageBus app_served =
     [BABEL_START ''/proj/src/components/app.tsx'',
      BABEL_FINISH ''/proj/src/components/app.tsx'' (Some \<lparr>code = Some ''export const x = 1;''\<rparr>)] \<and>
   FILE_CACHE app_served ''/proj/src/components/app.tsx'' = Some ''export const x = 1;'' \<and>
   FILE_CACHE app_served ''/proj/src/components/app.js'' = None \<and>
   fst (requestListener (posix app_babel) app_opts app_fs app_request app_served) =
     FileResponse ''export const x = 1;'' ''.js'' \<and>
   messageBus (snd (requestListener (posix app_babel) app_opts app_fs app_request app_served)) =
     messageBus app_served @
     [BABEL_START ''/proj/src/components/app.tsx'',
      BABEL_FINISH ''/proj/src/components/app.tsx'' (Some \<lparr>code = Some ''export const x = 1;''\<rparr>)]"
  by code_simp

subsection \<open>Requests without an extension\<close>

text \<open>
  For a request whose candidate is not a regular file and, under a source root, has
  nothing at the paths of the source probe either, the probes run in the order \<^verbatim>\<open>.html\<close>, \<^verbatim>\<open>/index.html\<close>, \<^verbatim>\<open>index.html\<close>, fallback document;
  the first three need only exist, the fallback document has to be a regular file; a hit
  is a route served as \<^verbatim>\<open>.html\<close>, and with no hit there is no file (status 404).
\<close>

lemma resolveFile_route_order:
  assumes "\<not> truthy (statIsFile fs requestedFile)"
    and "isSrc \<Longrightarrow> fs (replaceJsExt requestedFile ''.ts'') = None \<and>
           fs (replaceJsExt requestedFile ''.jsx'') = None \<and>
           fs (replaceJsExt requestedFile ''.tsx'') = None"
  shows "resolveFile L opts fs requestedFile [] isSrc =
     (if fs (requestedFile @ ''.html'') \<noteq> None
        then Some (requestedFile @ ''.html'', ''.html'', True)
      else if fs (requestedFile @ ''/index.html'') \<noteq> None
        then Some (requestedFile @ ''/index.html'', ''.html'', True)
      else if fs (requestedFile @ ''index.html'') \<noteq> None
        then Some (requestedFile @ ''index.html'', ''.html'', True)
      else if truthy (statIsFile fs (path_join L (publicDir opts) (fallback opts)))
        then Some (path_join L (publicDir opts) (fallback opts), ''.html'', True)
      else None)"
proof -
  let ?f0 = "statIsFile fs requestedFile"
  have f1: "(if \<not> truthy ?f0 \<and> isSrc then
               orElse (orElse (orElse ?f0
                 (statExists fs (replaceJsExt requestedFile ''.ts'')))
                 (statExists fs (replaceJsExt requestedFile ''.jsx'')))
                 (statExists fs (replaceJsExt requestedFile ''.tsx''))
             else ?f0) = (if isSrc then None else ?f0)"
    using assms by (auto simp: orElse_def statExists_def truthy_def)
  have t: "\<not> truthy (if isSrc then None else ?f0)"
    using assms(1) by (simp add: truthy_def)
  show ?thesis
    unfolding resolveFile_def Let_def f1
    using t
    by (auto simp: orElse_def statExists_def truthy_def statIsFile_def
        split: option.splits if_splits)
qed


text \<open>
  Claim C2, at a request under a source root. \<^verbatim>\<open>/src/app\<close> has no extension and its
  candidate \<^verbatim>\<open>/proj/src/app\<close> is a directory, not a regular file, with an \<^verbatim>\<open>index.html\<close> in
  it. The probe for \<^verbatim>\<open>.ts\<close>, \<^verbatim>\<open>.jsx\<close> and \<^verbatim>\<open>.tsx\<close> siblings comes first: its
  \<^verbatim>\<open>replace(/\.js$/, ...)\<close> leaves a path without \<^verbatim>\<open>.js\<close> as it is and its \<^verbatim>\<open>stat\<close> accepts
  whatever exists, so the directory itself becomes the file to read. The four probes of
  the claim are skipped, \<^verbatim>\<open>isRoute\<close> stays false, reading the directory fails and the
  answer is 500, where the claim has \<^verbatim>\<open>/proj/src/app/index.html\<close> served as a route.
\<close>

theorem source_directory_request_500:
  "requestedFileOf (posix app_babel) src_opts ''/src/app'' ''/src/app'' = (''/proj/src/app'', True) \<and>
   path_ext (posix app_babel) ''/src/app'' = [] \<and>
   statIsFile dir_fs ''/proj/src/app'' = None \<and>
   statExists dir_fs (''/proj/src/app'' @ ''.html'') = None \<and>
   statExists dir_fs (''/proj/src/app'' @ ''/index.html'') = Some ''/proj/src/app/index.html'' \<and>
   resolveFile (posix app_babel) src_opts dir_fs ''/proj/src/app'' [] True =
     Some (''/proj/src/app'', [], False) \<and>
   fst (requestListener (posix app_babel) src_opts dir_fs dir_request initial) = ErrorResponse 500"
  by code_simp

subsection \<open>A build that fails\<close>

lemma serveFile_build_failure:
  assumes "readFile fs fileLoc utf8 = Some fileContents" and "fileContents \<noteq> []"
    and "\<not> str_includes fileLoc ''/web_modules/''"
    and "transformAsync L fileContents fileLoc = Inl err \<or>
         (\<exists>r. transformAsync L fileContents fileLoc = Inr (Some r) \<and>
              (code r = None \<or> code r = Some []))"
  shows "fst (serveFile L fs fileLoc ''.js'' False s) = sendError 500"
    and "FILE_CACHE (snd (serveFile L fs fileLoc ''.js'' False s)) = FILE_CACHE s"
proof -
  let ?b = "buildBabelFile L fileLoc fileContents s"
  have b: "?b = (transformAsync L fileContents fileLoc, snd ?b)"
    by (metis buildBabelFile_fst prod.collapse)
  have c: "FILE_CACHE (snd ?b) = FILE_CACHE s" by simp
  have enc: "getEncodingType ''.js'' = utf8" by (simp add: getEncodingType_def)
  have unfold: "serveFile L fs fileLoc ''.js'' False s =
      (case ?b of
         (Inl babelErr, s2) \<Rightarrow> (sendError 500, s2)
       | (Inr None, s2) \<Rightarrow> (NoResponse, s2)
       | (Inr (Some babelResult), s2) \<Rightarrow>
           (case code babelResult of
              None \<Rightarrow> (sendError 500, s2)
            | Some responseContents \<Rightarrow>
                if responseContents = [] then (sendError 500, s2)
                else (sendFile responseContents ''.js'',
                      s2\<lparr>FILE_CACHE := (FILE_CACHE s2)(fileLoc \<mapsto> responseContents)\<rparr>)))"
    using assms(1-3) by (simp add: serveFile_def enc)
  from assms(4) show "fst (serveFile L fs fileLoc ''.js'' False s) = sendError 500"
    by (subst unfold, subst b) auto
  from assms(4) show "FILE_CACHE (snd (serveFile L fs fileLoc ''.js'' False s)) = FILE_CACHE s"
    by (subst unfold, subst b) (auto simp: c)
qed

text \<open>
  Claim C4. Take a request that misses the cache and resolves to a file served as
  \<^verbatim>\<open>.js\<close> outside \<^verbatim>\<open>/web_modules/\<close>, whose text is read and is not empty. If Babel throws,
  or returns a result whose \<^verbatim>\<open>code\<close> is missing or empty, the answer is 500 and the file
  cache after the request is the cache before it. (By \<open>requestListener_cache\<close> above
  the cache changes in one way only: a response with status 200 stores its own body.
  When Babel resolves to \<^verbatim>\<open>null\<close>, reading \<^verbatim>\<open>babelResult.code\<close> throws; nothing is answered
  and the cache stays as it was.)
\<close>

theorem failed_transform_500_cache_unchanged:
  assumes "url_pathname L (url req) \<noteq> ''/livereload''"
    and "decodeURI L (url_pathname L (url req)) = Some resource"
    and "requestedFileOf L opts (url_pathname L (url req)) resource = (requestedFile, isSrc)"
    and "FILE_CACHE s requestedFile = None"
    and "resolveFile L opts fs requestedFile (toLowerCase (path_ext L resource)) isSrc =
           Some (fileLoc, ''.js'', isRoute)"
    and "\<not> str_includes fileLoc ''/web_modules/''"
    and "readFile fs fileLoc utf8 = Some fileContents" and "fileContents \<noteq> []"
    and "transformAsync L fileContents fileLoc = Inl err \<or>
         (\<exists>r. transformAsync L fileContents fileLoc = Inr (Some r) \<and>
              (code r = None \<or> code r = Some []))"
  shows "fst (requestListener L opts fs req s) = ErrorResponse 500 \<and>
         FILE_CACHE (snd (requestListener L opts fs req s)) = FILE_CACHE s"
proof -
  have "''.js'' = (if isRoute then ''.html'' else toLowerCase (path_ext L resource))"
    using resolveFile_route_ext [OF assms(5)] .
  then have nr: "\<not> isRoute" by (auto split: if_splits)
  have h: "handleRequest L opts fs req s = serveFile L fs fileLoc ''.js'' False s"
    using handleRequest_miss [OF assms(1-4)] assms(5) nr by simp
  show ?thesis
    using serveFile_build_failure [OF assms(7,8,6,9)]
    by (simp add: requestListener_parts h sendError_def)
qed

text \<open>The request for \<^verbatim>\<open>/src/broken.js\<close>, which Babel rejects.\<close>

theorem failed_transform_500_cache_unchanged_witness:
  "fst (requestListener (posix broken_babel) src_opts broken_fs broken_request initial) =
     ErrorResponse 500 \<and>
   FILE_CACHE (snd (requestListener (posix broken_babel) src_opts broken_fs broken_request initial)) =
     FILE_CACHE initial"
proof (rule failed_transform_500_cache_unchanged)
  show "url_pathname (posix broken_babel) (url broken_request) \<noteq> ''/livereload''"
    by code_simp
  show "decodeURI (posix broken_babel) (url_pathname (posix broken_babel) (url broken_request)) =
      Some ''/src/broken.js''"
    by code_simp
  show "requestedFileOf (posix broken_babel) src_opts
      (url_pathname (posix broken_babel) (url broken_request)) ''/src/broken.js'' =
      (''/proj/src/broken.js'', True)"
    by code_simp
  show "FILE_CACHE initial ''/proj/src/broken.js'' = None"
    by (simp add: initial_def)
  show "resolveFile (posix broken_babel) src_opts broken_fs ''/proj/src/broken.js''
      (toLowerCase (path_ext (posix broken_babel) ''/src/broken.js'')) True =
      Some (''/proj/src/broken.js'', ''.js'', False)"
    by code_simp
  show "\<not> str_includes ''/proj/src/broken.js'' ''/web_modules/''"
    by code_simp
  show "readFile broken_fs ''/proj/src/broken.js'' utf8 = Some ''const = ;''"
    by code_simp
  show "''const = ;'' \<noteq> []" by simp
  show "transformAsync (posix broken_babel) ''const = ;'' ''/proj/src/broken.js'' =
      Inl (BabelError ''Unexpected token'') \<or>
      (\<exists>r. transformAsync (posix broken_babel) ''const = ;'' ''/proj/src/broken.js'' = Inr (Some r) \<and>
        (code r = None \<or> code r = Some []))"
    by (simp add: posix_def broken_babel_def)
qed

subsection \<open>An empty file\<close>

text \<open>
  Claim C10. A request that misses the cache and resolves to a regular file that is read
  with an empty text is answered 404, and the file cache stays as it was, with no entry
  added for the file.
\<close>

theorem empty_file_404:
  assumes "url_pathname L (url req) \<noteq> ''/livereload''"
    and "decodeURI L (url_pathname L (url req)) = Some resource"
    and "requestedFileOf L opts (url_pathname L (url req)) resource = (requestedFile, isSrc)"
    and "FILE_CACHE s requestedFile = None"
    and "resolveFile L opts fs requestedFile (toLowerCase (path_ext L resource)) isSrc =
           Some (fileLoc, ext, isRoute)"
    and "fs fileLoc = Some (RegularFile (Some []))"
  shows "fst (requestListener L opts fs req s) = ErrorResponse 404 \<and>
         FILE_CACHE (snd (requestListener L opts fs req s)) = FILE_CACHE s"
proof -
  have r: "readFile fs fileLoc (getEncodingType ext) = Some []"
    using assms(6) by (simp add: readFile_def)
  have h: "handleRequest L opts fs req s = (sendError 404, s)"
    using handleRequest_miss [OF assms(1-4)] assms(5) serveFile_empty [OF r] by simp
  show ?thesis by (simp add: requestListener_parts h sendError_def)
qed

text \<open>The request for the empty \<^verbatim>\<open>/empty.css\<close>.\<close>

theorem empty_file_404_witness:
  "fst (requestListener (posix broken_babel) src_opts broken_fs empty_request initial) =
     ErrorResponse 404 \<and>
   FILE_CACHE (snd (requestListener (posix broken_babel) src_opts broken_fs empty_request initial)) =
     FILE_CACHE initial"
proof (rule empty_file_404)
  show "url_pathname (posix broken_babel) (url empty_request) \<noteq> ''/livereload''"
    by code_simp
  show "decodeURI (posix broken_babel) (url_pathname (posix broken_babel) (url empty_request)) =
      Some ''/empty.css''"
    by code_simp
  show "requestedFileOf (posix broken_babel) src_opts
      (url_pathname (posix broken_babel) (url empty_request)) ''/empty.css'' =
      (''/proj/public/empty.css'', False)"
    by code_simp
  show "FILE_CACHE initial ''/proj/public/empty.css'' = None"
    by (simp add: initial_def)
  show "resolveFile (posix broken_babel) src_opts broken_fs ''/proj/public/empty.css''
      (toLowerCase (path_ext (posix broken_babel) ''/empty.css'')) False =
      Some (''/proj/public/empty.css'', ''.css'', False)"
    by code_simp
  show "broken_fs ''/proj/public/empty.css'' = Some (RegularFile (Some []))"
    by code_simp
qed

subsection \<open>A change to a file whose build failed\<close>

text \<open>
  What the watch callback does with the name it is called with. If no build error is
  recorded under that name, Babel is not called and the record stays as it is. If one
  is recorded, the file of that name is read: when it cannot be read, or its text is
  empty, the error is dropped and Babel is not called; otherwise Babel is called on
  the text, and the error is dropped on success and replaced on failure.
\<close>

lemma onWatchEvent_no_recorded_failure:
  "babelFileErrors s fileLoc = None \<Longrightarrow>
   messageBus (onWatchEvent L opts fs event fileLoc s) = messageBus s \<and>
   babelFileErrors (onWatchEvent L opts fs event fileLoc s) = babelFileErrors s"
  by (simp add: onWatchEvent_def Let_def drain_all)

lemma onWatchEvent_recorded_failure:
  assumes "babelFileErrors s fileLoc = Some e0"
  shows
   "(case readFile fs fileLoc utf8 of
       None \<Rightarrow>
         babelFileErrors (onWatchEvent L opts fs event fileLoc s) fileLoc = None \<and>
         messageBus (onWatchEvent L opts fs event fileLoc s) = messageBus s
     | Some fileContents \<Rightarrow>
         if fileContents = [] then
           babelFileErrors (onWatchEvent L opts fs event fileLoc s) fileLoc = None \<and>
           messageBus (onWatchEvent L opts fs event fileLoc s) = messageBus s
         else
           (case transformAsync L fileContents fileLoc of
              Inr result \<Rightarrow>
                babelFileErrors (onWatchEvent L opts fs event fileLoc s) fileLoc = None \<and>
                messageBus (onWatchEvent L opts fs event fileLoc s) =
                  messageBus s @ [BABEL_START fileLoc, BABEL_FINISH fileLoc result]
            | Inl err \<Rightarrow>
                babelFileErrors (onWatchEvent L opts fs event fileLoc s) fileLoc = Some err \<and>
                messageBus (onWatchEvent L opts fs event fileLoc s) =
                  messageBus s @ [BABEL_START fileLoc, BABEL_ERROR fileLoc err]))"
  using assms
  by (simp add: onWatchEvent_def Let_def drain_all buildBabelFile_messageBus
      buildBabelFile_errors split: option.splits sum.splits)

text \<open>
  Claim C5, after the failed request for \<^verbatim>\<open>/src/broken.js\<close>. The error is recorded under
  the absolute path \<^verbatim>\<open>/proj/src/broken.js\<close>, the file that was read. The file is saved
  again. Off Linux the working directory has one recursive watcher, and \<^verbatim>\<open>fs.watch\<close>
  calls \<^verbatim>\<open>onWatchEvent\<close> with the name relative to the watched directory,
  \<^verbatim>\<open>src/broken.js\<close>. No error is recorded under that name: Babel is not called again (the
  bus gets no event) and the error stays recorded, where the claim has the build
  retried. On Linux the watcher of the root is not recursive and the change is not
  reported at all.
\<close>

theorem watch_event_name_misses_recorded_failure:
  "babelFileErrors broken_served ''/proj/src/broken.js'' =
     Some (BabelError ''Unexpected token'') \<and>
   watchRoots (posix broken_babel) ''darwin'' src_opts broken_fs = [FSWatcher ''/proj'' True] \<and>
   watcherFilename (FSWatcher ''/proj'' True) ''/proj/src/broken.js'' = Some ''src/broken.js'' \<and>
   messageBus
     (notifyChange (posix broken_babel) src_opts broken_fs
        (watchRoots (posix broken_babel) ''darwin'' src_opts broken_fs)
        ''/proj/src/broken.js'' broken_served) = messageBus broken_served \<and>
   babelFileErrors
     (notifyChange (posix broken_babel) src_opts broken_fs
        (watchRoots (posix broken_babel) ''darwin'' src_opts broken_fs)
        ''/proj/src/broken.js'' broken_served) ''/proj/src/broken.js'' =
     Some (BabelError ''Unexpected token'') \<and>
   watchRoots (posix broken_babel) ''linux'' src_opts broken_fs = [FSWatcher ''/proj'' False] \<and>
   watcherFilename (FSWatcher ''/proj'' False) ''/proj/src/broken.js'' = None"
  by code_simp

subsection \<open>The live-reload broadcast\<close>

lemma count_reloads:
  "count_list (concat (map (\<lambda>c. sendMessage c ''message'' ''reload'') cs))
     (hd (sendMessage c ''message'' ''reload'')) = count_list cs c"
  by (induction cs) (simp_all add: sendMessage_def)

lemma distinct_count_list:
  "distinct xs \<Longrightarrow> count_list xs x = (if x \<in> set xs then 1 else 0)"
  by (induction xs) auto

lemma onWatchEvent_written:
  "written (onWatchEvent L opts fs event fileLoc s) =
     written s @ concat (map (\<lambda>c. sendMessage c ''message'' ''reload'') (rev (liveReloadClients s)))"
  by (simp add: onWatchEvent_def Let_def drain_all split: option.splits)

lemma onWatchEvent_clients:
  "liveReloadClients (onWatchEvent L opts fs event fileLoc s) = []"
  by (simp add: onWatchEvent_def Let_def drain_all split: option.splits)

text \<open>
  Claim C6. With the connected clients all different, one watch event empties the list
  of clients and writes the reload message exactly once to each client that was on the
  list, and to no other: what it writes is one reload message per client, from the last
  registered to the first. A further watch event writes nothing more, and neither does
  any request other than a new \<^verbatim>\<open>/livereload\<close> registration.
\<close>

theorem watch_event_reloads_each_client_once:
  assumes "distinct (liveReloadClients s)"
    and "url_pathname L (url req) \<noteq> ''/livereload''"
  shows "liveReloadClients (onWatchEvent L opts fs event fileLoc s) = [] \<and>
    written (onWatchEvent L opts fs event fileLoc s) =
      written s @
      concat (map (\<lambda>c. sendMessage c ''message'' ''reload'') (rev (liveReloadClients s))) \<and>
    (\<forall>c. count_list (written (onWatchEvent L opts fs event fileLoc s))
            (hd (sendMessage c ''message'' ''reload'')) =
          count_list (written s) (hd (sendMessage c ''message'' ''reload'')) +
          (if c \<in> set (liveReloadClients s) then 1 else 0)) \<and>
    written (onWatchEvent L opts fs' event' fileLoc' (onWatchEvent L opts fs event fileLoc s)) =
      written (onWatchEvent L opts fs event fileLoc s) \<and>
    written (snd (requestListener L opts fs' req (onWatchEvent L opts fs event fileLoc s))) =
      written (onWatchEvent L opts fs event fileLoc s)"
proof -
  have one: "count_list (liveReloadClients s) c = (if c \<in> set (liveReloadClients s) then 1 else 0)" for c
    using assms(1) by (rule distinct_count_list)
  show ?thesis
    using assms(2)
    by (simp add: onWatchEvent_clients onWatchEvent_written count_reloads one
        requestListener_parts handleRequest_written)
qed


text \<open>Three clients register, then a file changes.\<close>

theorem watch_event_reloads_each_client_once_witness:
  "distinct (liveReloadClients three_clients) \<and>
   liveReloadClients
     (onWatchEvent (posix app_babel) app_opts app_fs ''change'' ''/proj/src/components/app.tsx''
        three_clients) = [] \<and>
   count_list
     (written (onWatchEvent (posix app_babel) app_opts app_fs ''change''
        ''/proj/src/components/app.tsx'' three_clients))
     (hd (sendMessage 1 ''message'' ''reload'')) = 1 \<and>
   count_list
     (written (onWatchEvent (posix app_babel) app_opts app_fs ''change''
        ''/proj/src/components/app.tsx'' three_clients))
     (hd (sendMessage 2 ''message'' ''reload'')) = 1 \<and>
   count_list
     (written (onWatchEvent (posix app_babel) app_opts app_fs ''change''
        ''/proj/src/components/app.tsx'' three_clients))
     (hd (sendMessage 3 ''message'' ''reload'')) = 1 \<and>
   written (snd (requestListener (posix app_babel) app_opts app_fs app_request
     (onWatchEvent (posix app_babel) app_opts app_fs ''change'' ''/proj/src/components/app.tsx''
        three_clients))) =
   written (onWatchEvent (posix app_babel) app_opts app_fs ''change''
     ''/proj/src/components/app.tsx'' three_clients)"
proof -
  have c: "liveReloadClients three_clients = [1, 2, 3]" by code_simp
  have d: "distinct (liveReloadClients three_clients)" by (simp add: c)
  have u: "url_pathname (posix app_babel) (url app_request) \<noteq> ''/livereload''" by code_simp
  have w: "count_list (written three_clients) (hd (sendMessage 1 ''message'' ''reload'')) = 0"
    "count_list (written three_clients) (hd (sendMessage 2 ''message'' ''reload'')) = 0"
    "count_list (written three_clients) (hd (sendMessage 3 ''message'' ''reload'')) = 0"
    by code_simp+
  note th = watch_event_reloads_each_client_once [OF d u, where opts = app_opts and fs = app_fs
      and fs' = app_fs and event = "''change''" and fileLoc = "''/proj/src/components/app.tsx''"
      and event' = "''change''" and fileLoc' = "''/proj/src/components/app.tsx''"]
  have k: "count_list
      (written (onWatchEvent (posix app_babel) app_opts app_fs ''change''
         ''/proj/src/components/app.tsx'' three_clients))
      (hd (sendMessage n ''message'' ''reload'')) =
    count_list (written three_clients) (hd (sendMessage n ''message'' ''reload'')) +
    (if n \<in> set (liveReloadClients three_clients) then 1 else 0)" for n
    using th by blast
  have e: "written (snd (requestListener (posix app_babel) app_opts app_fs app_request
     (onWatchEvent (posix app_babel) app_opts app_fs ''change'' ''/proj/src/components/app.tsx''
        three_clients))) =
   written (onWatchEvent (posix app_babel) app_opts app_fs ''change''
     ''/proj/src/components/app.tsx'' three_clients)"
    and l: "liveReloadClients
     (onWatchEvent (posix app_babel) app_opts app_fs ''change'' ''/proj/src/components/app.tsx''
        three_clients) = []"
    using th by blast+
  show ?thesis
    using k [of 1] k [of 2] k [of 3] w c d e l by simp
qed


subsection \<open>Watching on Linux\<close>

text \<open>
  On Linux \<^verbatim>\<open>watch\<close> attaches one non-recursive watcher to a directory and stops there; it
  reads the entries only of what is not a directory, which throws; and it does nothing
  for a path that ends in \<^verbatim>\<open>node_modules\<close>.
\<close>

lemma watch_linux_directory:
  assumes "\<not> endsWith fileLoc ''node_modules''" and "fs fileLoc = Some (Directory entries)"
  shows "watch L ''linux'' fs fileLoc = ([FSWatcher fileLoc False], None)"
  using assms by (subst watch.simps) (simp add: isDirectory_def fsWatch_def)

lemma watch_linux_not_directory:
  assumes "\<not> endsWith fileLoc ''node_modules''" and "fs fileLoc = Some (RegularFile contents)"
  shows "watch L ''linux'' fs fileLoc = ([], Some ENOTDIR)"
  using assms by (subst watch.simps) (simp add: isDirectory_def readdirSync_def)

lemma watch_linux_node_modules:
  "endsWith fileLoc ''node_modules'' \<Longrightarrow> watch L ''linux'' fs fileLoc = ([], None)"
  by (subst watch.simps) simp

text \<open>
  Claim C7, on a project with subdirectories. \<^verbatim>\<open>watch\<close> calls \<^verbatim>\<open>readdirSync\<close> in the branch
  for paths that are not directories, so for the root \<^verbatim>\<open>/proj\<close> it attaches the watcher of
  the root and returns: the tree is not enumerated, and \<^verbatim>\<open>/proj/src\<close>, which is there when
  the watch starts, gets no watcher, where the claim has one watcher per directory.
\<close>

theorem watch_linux_only_root:
  "dir_fs ''/proj/src'' = Some (Directory [''app'']) \<and>
   watch (posix app_babel) ''linux'' dir_fs ''/proj'' = ([FSWatcher ''/proj'' False], None)"
  by code_simp

subsection \<open>A route served twice\<close>

lemma orElse_SomeD:
  "orElse a b = Some x \<Longrightarrow> a = Some x \<or> (\<not> truthy a \<and> b = Some x)"
  by (auto simp: orElse_def split: if_splits)

lemma statExists_SomeD: "statExists fs p = Some x \<Longrightarrow> x = p"
  by (auto simp: statExists_def split: option.splits)

lemma statIsFile_SomeD: "statIsFile fs p = Some x \<Longrightarrow> x = p"
  by (auto simp: statIsFile_def split: option.splits if_splits)

lemma resolveFile_routeD:
  assumes "resolveFile L opts fs requestedFile requestedFileExt isSrc = Some (fileLoc, ext, True)"
  shows "\<not> truthy (statIsFile fs requestedFile)" and "fileLoc \<noteq> []"
    and "requestedFileExt = []"
    and "orElse (orElse (orElse
           (statExists fs (requestedFile @ ''.html''))
           (statExists fs (requestedFile @ ''/index.html'')))
           (statExists fs (requestedFile @ ''index.html'')))
           (statIsFile fs (path_join L (publicDir opts) (fallback opts))) = Some fileLoc"
proof -
  let ?f0 = "statIsFile fs requestedFile"
  let ?f1 = "if \<not> truthy ?f0 \<and> isSrc then
               orElse (orElse (orElse ?f0
                 (statExists fs (replaceJsExt requestedFile ''.ts'')))
                 (statExists fs (replaceJsExt requestedFile ''.jsx'')))
                 (statExists fs (replaceJsExt requestedFile ''.tsx''))
             else ?f0"
  let ?f2 = "orElse (orElse (orElse
           (statExists fs (requestedFile @ ''.html''))
           (statExists fs (requestedFile @ ''/index.html'')))
           (statExists fs (requestedFile @ ''index.html'')))
           (statIsFile fs (path_join L (publicDir opts) (fallback opts)))"
  have r: "\<not> truthy ?f1 \<and> requestedFileExt = []"
    using assms unfolding resolveFile_def Let_def
    by (simp split: option.splits if_splits)
  then show "requestedFileExt = []" by simp
  from r show "\<not> truthy ?f0" by (simp split: if_splits)
  from assms r have "?f2 = Some fileLoc \<and> fileLoc \<noteq> []"
    unfolding resolveFile_def Let_def
    by (simp split: option.splits if_splits)
  then show "fileLoc \<noteq> []" and "?f2 = Some fileLoc" by simp_all
qed

lemma resolveFile_route_other:
  assumes "resolveFile L opts fs requestedFile requestedFileExt isSrc = Some (fileLoc, ext, True)"
  shows "fileLoc \<noteq> requestedFile"
proof
  assume eq: "fileLoc = requestedFile"
  note d = resolveFile_routeD [OF assms]
  have "fileLoc = requestedFile @ ''.html'' \<or> fileLoc = requestedFile @ ''/index.html'' \<or>
      fileLoc = requestedFile @ ''index.html'' \<or>
      statIsFile fs (path_join L (publicDir opts) (fallback opts)) = Some fileLoc"
    using d(4) by (auto dest!: orElse_SomeD statExists_SomeD)
  with eq have s: "statIsFile fs (path_join L (publicDir opts) (fallback opts)) = Some fileLoc"
    by auto
  then have "path_join L (publicDir opts) (fallback opts) = fileLoc"
    by (auto dest: statIsFile_SomeD)
  with s eq have "statIsFile fs requestedFile = Some requestedFile" by simp
  with d(1,2) eq show False by (simp add: truthy_def)
qed

lemma serveFile_route:
  assumes "readFile fs fileLoc utf8 = Some contents" and "contents \<noteq> []"
  shows "serveFile L fs fileLoc ''.html'' True s =
     (FileResponse (contents @ LIVE_RELOAD_SNIPPET) ''.html'',
      (emit NEW_SESSION s)\<lparr>FILE_CACHE := (FILE_CACHE s)(fileLoc \<mapsto> contents @ LIVE_RELOAD_SNIPPET)\<rparr>)"
  using assms by (simp add: serveFile_def getEncodingType_def sendFile_def Let_def)

text \<open>
  Claim C8. Let a request miss the cache and resolve as a route to a file with a text
  that is not empty. The response is that text followed by the live-reload snippet,
  once, served as \<^verbatim>\<open>.html\<close>; the same bytes are what the cache then holds for the file;
  and a second request for the same URL, with the file system unchanged, gets the same
  response.
\<close>

theorem route_served_twice_identical:
  assumes "url_pathname L (url req) \<noteq> ''/livereload''"
    and "decodeURI L (url_pathname L (url req)) = Some resource"
    and "requestedFileOf L opts (url_pathname L (url req)) resource = (requestedFile, isSrc)"
    and "FILE_CACHE s requestedFile = None"
    and "resolveFile L opts fs requestedFile (toLowerCase (path_ext L resource)) isSrc =
           Some (fileLoc, ext, True)"
    and "readFile fs fileLoc utf8 = Some contents" and "contents \<noteq> []"
    and "url req' = url req"
  shows "fst (requestListener L opts fs req s) =
           FileResponse (contents @ LIVE_RELOAD_SNIPPET) ''.html'' \<and>
         FILE_CACHE (snd (requestListener L opts fs req s)) fileLoc =
           Some (contents @ LIVE_RELOAD_SNIPPET) \<and>
         fst (requestListener L opts fs req' (snd (requestListener L opts fs req s))) =
           fst (requestListener L opts fs req s)"
proof -
  have ext: "ext = ''.html''" using resolveFile_route_ext [OF assms(5)] by simp
  have other: "fileLoc \<noteq> requestedFile" using resolveFile_route_other [OF assms(5)] .
  let ?body = "contents @ LIVE_RELOAD_SNIPPET"
  have first: "handleRequest L opts fs req s =
      (FileResponse ?body ''.html'',
       (emit NEW_SESSION s)\<lparr>FILE_CACHE := (FILE_CACHE s)(fileLoc \<mapsto> ?body)\<rparr>)"
    using handleRequest_miss [OF assms(1-4)] assms(5) ext serveFile_route [OF assms(6,7)]
    by simp
  let ?s1 = "snd (requestListener L opts fs req s)"
  have cache1: "FILE_CACHE ?s1 = (FILE_CACHE s)(fileLoc \<mapsto> ?body)"
    by (simp add: requestListener_parts first)
  have miss1: "FILE_CACHE ?s1 requestedFile = None"
    using other assms(4) by (simp add: cache1)
  have second: "fst (handleRequest L opts fs req' ?s1) = FileResponse ?body ''.html''"
    using handleRequest_miss [of L req' resource opts requestedFile isSrc ?s1 fs]
      assms(1-3,5,8) miss1 ext serveFile_route [OF assms(6,7)]
    by simp
  show ?thesis
    by (simp add: requestListener_parts first second cache1)
qed

text \<open>The page \<^verbatim>\<open>/about\<close>, served from the fallback document.\<close>

theorem route_served_twice_identical_witness:
  "fst (requestListener (posix app_babel) app_opts app_fs about_request initial) =
     FileResponse (''<div id=app></div>'' @ LIVE_RELOAD_SNIPPET) ''.html'' \<and>
   FILE_CACHE (snd (requestListener (posix app_babel) app_opts app_fs about_request initial))
     ''/proj/public/index.html'' = Some (''<div id=app></div>'' @ LIVE_RELOAD_SNIPPET) \<and>
   fst (requestListener (posix app_babel) app_opts app_fs about_request
     (snd (requestListener (posix app_babel) app_opts app_fs about_request initial))) =
   fst (requestListener (posix app_babel) app_opts app_fs about_request initial)"
proof (rule route_served_twice_identical)
  show "url_pathname (posix app_babel) (url about_request) \<noteq> ''/livereload''"
    by code_simp
  show "decodeURI (posix app_babel) (url_pathname (posix app_babel) (url about_request)) =
      Some ''/about''"
    by code_simp
  show "requestedFileOf (posix app_babel) app_opts
      (url_pathname (posix app_babel) (url about_request)) ''/about'' =
      (''/proj/public/about'', False)"
    by code_simp
  show "FILE_CACHE initial ''/proj/public/about'' = None"
    by (simp add: initial_def)
  show "resolveFile (posix app_babel) app_opts app_fs ''/proj/public/about''
      (toLowerCase (path_ext (posix app_babel) ''/about'')) False =
      Some (''/proj/public/index.html'', ''.html'', True)"
    by code_simp
  show "readFile app_fs ''/proj/public/index.html'' utf8 = Some ''<div id=app></div>''"
    by code_simp
  show "''<div id=app></div>'' \<noteq> []" by simp
  show "url about_request = url about_request" by simp
qed

subsection \<open>Chunks from the type checker\<close>

text \<open>
  Each step of the listener does what its description by the text says: removing the
  first occurrence, trimming, the three tests, and the leftmost match of the errors
  pattern with its digits.
\<close>

lemma splitAtFirst_Some:
  "splitAtFirst pat s = Some (u, v) \<Longrightarrow>
   s = u @ pat @ v \<and> (\<forall>u' v'. s = u' @ pat @ v' \<longrightarrow> length u \<le> length u')"
proof (induction s arbitrary: u v)
  case Nil
  then show ?case by (simp split: if_splits)
next
  case (Cons c cs)
  show ?case
  proof (cases "prefix pat (c # cs)")
    case True
    with Cons.prems have u: "u = []" and v: "v = drop (length pat) (c # cs)" by simp_all
    from True obtain r where r: "c # cs = pat @ r" unfolding prefix_def by blast
    then have "drop (length pat) (c # cs) = r" by (metis append_eq_conv_conj)
    with u v r show ?thesis by simp
  next
    case False
    with Cons.prems obtain b where s: "splitAtFirst pat cs = Some (b, v)" and u: "u = c # b"
      by auto
    from Cons.IH [OF s] have cs: "cs = b @ pat @ v"
      and least: "\<And>u' v'. cs = u' @ pat @ v' \<Longrightarrow> length b \<le> length u'" by auto
    have "length u \<le> length u'" if e: "c # cs = u' @ pat @ v'" for u' v'
    proof (cases u')
      case Nil
      with e have "prefix pat (c # cs)" by (simp add: prefix_def)
      with False show ?thesis by simp
    next
      case (Cons a u'')
      with e have "cs = u'' @ pat @ v'" by simp
      from least [OF this] show ?thesis using Cons u by simp
    qed
    with cs u show ?thesis by simp
  qed
qed

lemma splitAtFirst_None:
  "splitAtFirst pat s = None \<Longrightarrow> s \<noteq> u @ pat @ v"
proof (induction s arbitrary: u)
  case Nil
  then show ?case by (simp split: if_splits)
next
  case (Cons c cs)
  then have np: "\<not> prefix pat (c # cs)" and n: "splitAtFirst pat cs = None"
    by (auto split: if_splits)
  show ?case
  proof (cases u)
    case Nil
    with np show ?thesis by (auto simp: prefix_def)
  next
    case (Cons a u'')
    with Cons.IH [OF n, of u''] show ?thesis by auto
  qed
qed

lemma replace_empty:
  "replace s pat [] = (case splitAtFirst pat s of None \<Rightarrow> s | Some (u, v) \<Rightarrow> u @ v)"
  by (simp add: replace_def split: option.splits)

lemma spec_withoutFirst_iff:
  "spec_withoutFirst pat s t \<longleftrightarrow> t = replace s pat []"
proof (cases "splitAtFirst pat s")
  case None
  then have "\<And>u v. s \<noteq> u @ pat @ v" by (rule splitAtFirst_None)
  with None show ?thesis by (auto simp: spec_withoutFirst_def replace_empty)
next
  case (Some uv)
  obtain b a where uv: "uv = (b, a)" by (cases uv)
  from splitAtFirst_Some [OF Some [unfolded uv]]
  have s: "s = b @ pat @ a"
    and least: "\<And>u' v'. s = u' @ pat @ v' \<Longrightarrow> length b \<le> length u'" by auto
  have r: "replace s pat [] = b @ a" by (simp add: replace_empty Some uv)
  show ?thesis
  proof
    assume "spec_withoutFirst pat s t"
    with s obtain u v where e: "s = u @ pat @ v" and t: "t = u @ v"
      and l: "\<And>u' v'. s = u' @ pat @ v' \<Longrightarrow> length u \<le> length u'"
      unfolding spec_withoutFirst_def by blast
    from l [OF s] least [OF e] have "length u = length b" by simp
    with e s have "u = b \<and> v = a" by (metis append_eq_append_conv same_append_eq)
    with t r show "t = replace s pat []" by simp
  next
    assume "t = replace s pat []"
    with r s least show "spec_withoutFirst pat s t"
      unfolding spec_withoutFirst_def by blast
  qed
qed

lemma dropWhile_head:
  "(case dropWhile P s of [] \<Rightarrow> True | c # _ \<Rightarrow> \<not> P c)"
  by (induction s) auto

lemma spec_leftTrimmed_iff:
  "spec_leftTrimmed s t \<longleftrightarrow> t = trimStart s"
proof
  assume "spec_leftTrimmed s t"
  then obtain w where s: "s = w @ t" and w: "list_all isWhiteSpace w"
    and t: "case t of [] \<Rightarrow> True | c # _ \<Rightarrow> \<not> isWhiteSpace c"
    unfolding spec_leftTrimmed_def by blast
  from w have "dropWhile isWhiteSpace (w @ t) = dropWhile isWhiteSpace t"
    by (simp add: list_all_iff)
  also from t have "\<dots> = t" by (cases t) auto
  finally show "t = trimStart s" by (simp add: trimStart_def s)
next
  assume t: "t = trimStart s"
  have "s = takeWhile isWhiteSpace s @ t" by (simp add: t trimStart_def)
  moreover have "list_all isWhiteSpace (takeWhile isWhiteSpace s)"
    by (auto simp: list_all_iff dest: set_takeWhileD)
  moreover have "case t of [] \<Rightarrow> True | c # _ \<Rightarrow> \<not> isWhiteSpace c"
    unfolding t trimStart_def by (rule dropWhile_head)
  ultimately show "spec_leftTrimmed s t" unfolding spec_leftTrimmed_def by blast
qed

lemma spec_forwarded_iff: "spec_forwarded b t \<longleftrightarrow> t = stripClear b"
  by (simp add: spec_forwarded_def spec_withoutFirst_iff spec_leftTrimmed_iff stripClear_def)

lemma watchingHere_iff:
  "watchingHere s \<longleftrightarrow>
     (\<exists>d v. s = ''Watching for file changes'' @ d # v \<and> \<not> isLineTerminator d)"
proof
  assume w: "watchingHere s"
  then obtain r where s: "s = ''Watching for file changes'' @ r"
    unfolding watchingHere_def prefix_def by blast
  with w show "\<exists>d v. s = ''Watching for file changes'' @ d # v \<and> \<not> isLineTerminator d"
    unfolding watchingHere_def by (cases r) auto
next
  assume "\<exists>d v. s = ''Watching for file changes'' @ d # v \<and> \<not> isLineTerminator d"
  then show "watchingHere s"
    unfolding watchingHere_def by auto
qed

lemma testWatching_iff:
  "testWatching s \<longleftrightarrow>
     (\<exists>u d v. s = u @ ''Watching for file changes'' @ d # v \<and> \<not> isLineTerminator d)"
proof (induction s)
  case Nil
  show ?case by simp
next
  case (Cons c cs)
  show ?case
  proof
    assume "testWatching (c # cs)"
    then consider "watchingHere (c # cs)" | "testWatching cs" by auto
    then show "\<exists>u d v. c # cs = u @ ''Watching for file changes'' @ d # v \<and> \<not> isLineTerminator d"
    proof cases
      case 1
      then obtain d v where "c # cs = [] @ ''Watching for file changes'' @ d # v" "\<not> isLineTerminator d"
        unfolding watchingHere_iff by auto
      then show ?thesis by blast
    next
      case 2
      then obtain u d v where "cs = u @ ''Watching for file changes'' @ d # v" "\<not> isLineTerminator d"
        using Cons.IH by blast
      then have "c # cs = (c # u) @ ''Watching for file changes'' @ d # v" by simp
      with \<open>\<not> isLineTerminator d\<close> show ?thesis by blast
    qed
  next
    assume "\<exists>u d v. c # cs = u @ ''Watching for file changes'' @ d # v \<and> \<not> isLineTerminator d"
    then obtain u d v where e: "c # cs = u @ ''Watching for file changes'' @ d # v"
      and d: "\<not> isLineTerminator d" by blast
    show "testWatching (c # cs)"
    proof (cases u)
      case Nil
      with e d have "watchingHere (c # cs)" unfolding watchingHere_iff by auto
      then show ?thesis by simp
    next
      case (Cons a u')
      with e have "cs = u' @ ''Watching for file changes'' @ d # v" by simp
      with d have "testWatching cs" using Cons.IH by blast
      then show ?thesis by simp
    qed
  qed
qed

lemma testLineBracket_iff:
  "testLineBracket atStart s \<longleftrightarrow>
     (atStart \<and> prefix ''['' s) \<or>
     (\<exists>u t v. s = u @ t # CHR ''['' # v \<and> isLineTerminator t)"
proof (induction s arbitrary: atStart)
  case Nil
  show ?case by simp
next
  case (Cons c cs)
  show ?case
  proof
    assume "testLineBracket atStart (c # cs)"
    then consider "atStart \<and> c = CHR ''[''" | "testLineBracket (isLineTerminator c) cs" by auto
    then show "(atStart \<and> prefix ''['' (c # cs)) \<or>
        (\<exists>u t v. c # cs = u @ t # CHR ''['' # v \<and> isLineTerminator t)"
    proof cases
      case 1
      then show ?thesis by simp
    next
      case 2
      then consider "isLineTerminator c \<and> prefix ''['' cs"
        | u t v where "cs = u @ t # CHR ''['' # v" "isLineTerminator t"
        using Cons.IH by blast
      then show ?thesis
      proof cases
        case 1
        then obtain v where "cs = CHR ''['' # v" by (cases cs) auto
        then have "c # cs = [] @ c # CHR ''['' # v" by simp
        with 1 show ?thesis by blast
      next
        case 2
        then have "c # cs = (c # u) @ t # CHR ''['' # v" by simp
        with 2 show ?thesis by blast
      qed
    qed
  next
    assume a: "(atStart \<and> prefix ''['' (c # cs)) \<or>
        (\<exists>u t v. c # cs = u @ t # CHR ''['' # v \<and> isLineTerminator t)"
    show "testLineBracket atStart (c # cs)"
    proof (cases "atStart \<and> c = CHR ''[''")
      case True
      then show ?thesis by simp
    next
      case False
      with a obtain u t v where e: "c # cs = u @ t # CHR ''['' # v" and t: "isLineTerminator t"
        by auto
      have "testLineBracket (isLineTerminator c) cs"
      proof (cases u)
        case Nil
        with e t show ?thesis using Cons.IH [of "isLineTerminator c"] by auto
      next
        case (Cons a u')
        with e have "cs = u' @ t # CHR ''['' # v" by simp
        with t show ?thesis using Cons.IH [of "isLineTerminator c"] by blast
      qed
      then show ?thesis by simp
    qed
  qed
qed


lemma spec_bracketLine_iff: "spec_bracketLine t \<longleftrightarrow> testLineBracket True t"
  by (simp add: spec_bracketLine_def testLineBracket_iff)

lemma spec_watching_iff: "spec_watching t \<longleftrightarrow> testWatching t"
  by (simp add: spec_watching_def testWatching_iff)

lemma not_isDigit_space: "\<not> isDigit (CHR '' '')"
  by (simp add: isDigit_def)

lemma foundHere_iff: "foundHere s = Some ds \<longleftrightarrow> spec_errorsAt s [] ds"
proof
  assume f: "foundHere s = Some ds"
  then obtain r where s: "s = ''Found '' @ r"
    unfolding foundHere_def prefix_def by (auto split: if_splits)
  from f s have ds: "ds = takeWhile isDigit r" "ds \<noteq> []"
    and p: "prefix '' errors'' (dropWhile isDigit r)"
    unfolding foundHere_def Let_def by (auto split: if_splits)
  from p obtain v where "dropWhile isDigit r = '' errors'' @ v"
    unfolding prefix_def by blast
  then have "r = ds @ '' errors'' @ v"
    using takeWhile_dropWhile_id [of isDigit r] ds(1) by simp
  moreover have "list_all isDigit ds"
    unfolding ds(1) list_all_iff by (auto dest: set_takeWhileD)
  ultimately show "spec_errorsAt s [] ds"
    using s ds(2) unfolding spec_errorsAt_def by auto
next
  assume "spec_errorsAt s [] ds"
  then obtain v where s: "s = ''Found '' @ ds @ '' errors'' @ v"
    and ne: "ds \<noteq> []" and d: "list_all isDigit ds"
    unfolding spec_errorsAt_def by auto
  have tw: "takeWhile isDigit (ds @ '' errors'' @ v) = ds"
    using d not_isDigit_space by (simp add: list_all_iff takeWhile_append2)
  have dw: "dropWhile isDigit (ds @ '' errors'' @ v) = '' errors'' @ v"
    using d not_isDigit_space by (simp add: list_all_iff dropWhile_append2)
  show "foundHere s = Some ds"
    unfolding foundHere_def Let_def s using ne tw dw by simp
qed

lemma spec_errorsAt_Nil: "\<not> spec_errorsAt [] u ds"
  by (simp add: spec_errorsAt_def)

lemma spec_errorsAt_Cons:
  "spec_errorsAt (c # cs) (a # u) ds \<longleftrightarrow> a = c \<and> spec_errorsAt cs u ds"
  by (auto simp: spec_errorsAt_def)

lemma matchFound_iff: "matchFound s = Some ds \<longleftrightarrow> spec_leftmostErrors s ds"
proof (induction s)
  case Nil
  show ?case by (simp add: spec_leftmostErrors_def spec_errorsAt_Nil)
next
  case (Cons c cs)
  show ?case
  proof (cases "foundHere (c # cs)")
    case (Some es)
    then have m: "matchFound (c # cs) = Some es" by simp
    from Some have at: "spec_errorsAt (c # cs) [] es" by (simp add: foundHere_iff)
    show ?thesis
    proof
      assume "matchFound (c # cs) = Some ds"
      with m have "ds = es" by simp
      with at show "spec_leftmostErrors (c # cs) ds"
        unfolding spec_leftmostErrors_def by (intro exI [of _ "[]"]) simp
    next
      assume "spec_leftmostErrors (c # cs) ds"
      then obtain u where u: "spec_errorsAt (c # cs) u ds"
        and least: "\<And>u' ds'. spec_errorsAt (c # cs) u' ds' \<Longrightarrow> length u \<le> length u'"
        unfolding spec_leftmostErrors_def by blast
      from least [OF at] have "u = []" by simp
      with u have "foundHere (c # cs) = Some ds" by (simp add: foundHere_iff)
      with Some m show "matchFound (c # cs) = Some ds" by simp
    qed
  next
    case None
    then have m: "matchFound (c # cs) = matchFound cs" by simp
    have no: "\<not> spec_errorsAt (c # cs) [] ds'" for ds'
      using None by (simp add: foundHere_iff [symmetric])
    show ?thesis
    proof
      assume "matchFound (c # cs) = Some ds"
      with m Cons.IH have "spec_leftmostErrors cs ds" by simp
      then obtain u where u: "spec_errorsAt cs u ds"
        and least: "\<And>u' ds'. spec_errorsAt cs u' ds' \<Longrightarrow> length u \<le> length u'"
        unfolding spec_leftmostErrors_def by blast
      have "length (c # u) \<le> length u'" if e: "spec_errorsAt (c # cs) u' ds'" for u' ds'
      proof (cases u')
        case Nil
        with e no show ?thesis by simp
      next
        case (Cons a u'')
        with e have "spec_errorsAt cs u'' ds'" by (simp add: spec_errorsAt_Cons)
        from least [OF this] Cons show ?thesis by simp
      qed
      moreover from u have "spec_errorsAt (c # cs) (c # u) ds" by (simp add: spec_errorsAt_Cons)
      ultimately show "spec_leftmostErrors (c # cs) ds"
        unfolding spec_leftmostErrors_def by blast
    next
      assume "spec_leftmostErrors (c # cs) ds"
      then obtain u where u: "spec_errorsAt (c # cs) u ds"
        and least: "\<And>u' ds'. spec_errorsAt (c # cs) u' ds' \<Longrightarrow> length u \<le> length u'"
        unfolding spec_leftmostErrors_def by blast
      from u no obtain a u0 where u0: "u = a # u0" by (cases u) auto
      with u have at: "spec_errorsAt cs u0 ds" by (simp add: spec_errorsAt_Cons)
      have "length u0 \<le> length u''" if e: "spec_errorsAt cs u'' ds'" for u'' ds'
      proof -
        from e have "spec_errorsAt (c # cs) (c # u'') ds'" by (simp add: spec_errorsAt_Cons)
        from least [OF this] u0 show ?thesis by simp
      qed
      with at have "spec_leftmostErrors cs ds" unfolding spec_leftmostErrors_def by blast
      with Cons.IH m show "matchFound (c # cs) = Some ds" by simp
    qed
  qed
qed

text \<open>
  \<^verbatim>\<open>parseInt\<close> is exact below \<open>2\<^sup>5\<^sup>3\<close> and rounds above: \<open>2\<^sup>5\<^sup>3 + 1\<close> becomes \<open>2\<^sup>5\<^sup>3\<close>.
\<close>

lemma parseInt_exact:
  "decimalValue ds < 2 ^ 53 \<Longrightarrow> parseInt ds = Number (decimalValue ds)"
  by (simp add: parseInt_def roundToDouble_def)

lemma parseInt_rounds_example:
  "parseInt ''9007199254740993'' = Number 9007199254740992"
proof -
  have v: "decimalValue ''9007199254740993'' = 9007199254740993"
    by (simp add: decimalValue_def)
  have l: "bitLength 9007199254740993 = 54"
    by (simp add: bitLength.simps)
  show ?thesis
    by (simp add: parseInt_def v roundToDouble_def l Let_def)
qed

text \<open>
  Claim C9, as the code has it. For every chunk \<open>b\<close> there is exactly one string \<open>t\<close> that
  is \<open>b\<close> without its first two clear-screen sequences and without leading white space,
  and the events emitted are, in this order: \<^verbatim>\<open>TSC_RESET\<close> if \<open>b\<close> starts with the
  clear-screen sequence; \<^verbatim>\<open>TSC_MSG\<close> with \<open>t\<close>; and, only if some line of \<open>t\<close> starts with
  \<^verbatim>\<open>[\<close>, \<^verbatim>\<open>TSC_DONE\<close> if \<open>t\<close> has the watching phrase followed by one more character of
  the same line, and then \<^verbatim>\<open>TSC_ERROR\<close> if \<open>t\<close> has a non-empty run of digits between
  \<^verbatim>\<open>Found \<close> and \<^verbatim>\<open> errors\<close>, with the number that \<^verbatim>\<open>parseInt\<close> gives for the digits of the
  leftmost such place (the nearest double).
\<close>

theorem tscOnData_refines:
  "\<exists>t. spec_forwarded b t \<and> (\<forall>t'. spec_forwarded b t' \<longrightarrow> t' = t) \<and>
     (\<exists>errs.
        ((\<exists>ds. spec_leftmostErrors t ds \<and> errs = [TSC_ERROR (parseInt ds)]) \<or>
         ((\<forall>ds. \<not> spec_leftmostErrors t ds) \<and> errs = [])) \<and>
        tscOnData b =
          (if prefix clearScreen b then [TSC_RESET] else []) @ [TSC_MSG t] @
          (if spec_bracketLine t
           then (if spec_watching t then [TSC_DONE] else []) @ errs
           else []))"
proof (intro exI [of _ "stripClear b"] conjI)
  show "spec_forwarded b (stripClear b)" by (simp add: spec_forwarded_iff)
  show "\<forall>t'. spec_forwarded b t' \<longrightarrow> t' = stripClear b" by (simp add: spec_forwarded_iff)
  show "\<exists>errs.
        ((\<exists>ds. spec_leftmostErrors (stripClear b) ds \<and> errs = [TSC_ERROR (parseInt ds)]) \<or>
         ((\<forall>ds. \<not> spec_leftmostErrors (stripClear b) ds) \<and> errs = [])) \<and>
        tscOnData b =
          (if prefix clearScreen b then [TSC_RESET] else []) @ [TSC_MSG (stripClear b)] @
          (if spec_bracketLine (stripClear b)
           then (if spec_watching (stripClear b) then [TSC_DONE] else []) @ errs
           else [])"
  proof (cases "matchFound (stripClear b)")
    case None
    then have "\<forall>ds. \<not> spec_leftmostErrors (stripClear b) ds"
      by (simp add: matchFound_iff [symmetric])
    with None show ?thesis
      by (intro exI [of _ "[]"])
        (simp add: tscOnData_def Let_def startsWith_def spec_bracketLine_iff spec_watching_iff)
  next
    case (Some ds)
    then have "spec_leftmostErrors (stripClear b) ds" by (simp add: matchFound_iff)
    with Some show ?thesis
      by (intro exI [of _ "[TSC_ERROR (parseInt ds)]"])
        (auto simp: tscOnData_def Let_def startsWith_def spec_bracketLine_iff spec_watching_iff)
  qed
qed

text \<open>A full report after a clear-screen sequence.\<close>

theorem tscOnData_refines_witness:
  "tscOnData (clearScreen @ tsc_report) =
     [TSC_RESET, TSC_MSG tsc_report, TSC_DONE, TSC_ERROR (Number 3)]"
proof -
  have s: "stripClear (clearScreen @ tsc_report) = tsc_report" by code_simp
  have b: "spec_bracketLine tsc_report"
    unfolding spec_bracketLine_iff by code_simp
  have w: "spec_watching tsc_report"
    unfolding spec_watching_iff by code_simp
  have m: "matchFound tsc_report = Some ''3''" by code_simp
  have e: "spec_leftmostErrors tsc_report ds \<longleftrightarrow> ds = ''3''" for ds
    unfolding matchFound_iff [symmetric] m by auto
  have p: "parseInt ''3'' = Number 3"
    by (simp add: parseInt_exact decimalValue_def)
  obtain t errs where t: "spec_forwarded (clearScreen @ tsc_report) t"
    and errs: "(\<exists>ds. spec_leftmostErrors t ds \<and> errs = [TSC_ERROR (parseInt ds)]) \<or>
         ((\<forall>ds. \<not> spec_leftmostErrors t ds) \<and> errs = [])"
    and out: "tscOnData (clearScreen @ tsc_report) =
          (if prefix clearScreen (clearScreen @ tsc_report) then [TSC_RESET] else []) @
          [TSC_MSG t] @
          (if spec_bracketLine t
           then (if spec_watching t then [TSC_DONE] else []) @ errs
           else [])"
    using tscOnData_refines [of "clearScreen @ tsc_report"] by blast
  from t have tt: "t = tsc_report" by (simp add: spec_forwarded_iff s)
  from errs have "errs = [TSC_ERROR (Number 3)]"
    unfolding tt e by (auto simp: p)
  with out show ?thesis by (simp add: tt b w)
qed

text \<open>
  The claim as stated has \<^verbatim>\<open>TSC_DONE\<close> and \<^verbatim>\<open>TSC_ERROR\<close> for every chunk with the phrase or
  the pattern, and every clear-screen sequence stripped. A chunk that holds both but has
  no line starting with \<^verbatim>\<open>[\<close> is only forwarded; and of three clear-screen sequences the
  third is forwarded, which also keeps the bracket off the start of the line.
\<close>

theorem tscOnData_needs_bracket_counterexample:
  "spec_watching tsc_tail \<and> spec_leftmostErrors tsc_tail ''3'' \<and>
   tscOnData tsc_tail = [TSC_MSG tsc_tail] \<and>
   tscOnData (clearScreen @ clearScreen @ clearScreen @ tsc_report) =
     [TSC_RESET, TSC_MSG (clearScreen @ tsc_report)]"
proof -
  have 1: "spec_watching tsc_tail" unfolding spec_watching_iff by code_simp
  have 2: "spec_leftmostErrors tsc_tail ''3''" unfolding matchFound_iff [symmetric] by code_simp
  have s1: "stripClear tsc_tail = tsc_tail" by code_simp
  have b1: "\<not> testLineBracket True tsc_tail" by code_simp
  have n1: "\<not> startsWith tsc_tail clearScreen" by code_simp
  have 3: "tscOnData tsc_tail = [TSC_MSG tsc_tail]"
    by (simp add: tscOnData_def Let_def s1 b1 n1)
  have s2: "stripClear (clearScreen @ clearScreen @ clearScreen @ tsc_report) =
      clearScreen @ tsc_report" by code_simp
  have b2: "\<not> testLineBracket True (clearScreen @ tsc_report)" by code_simp
  have 4: "tscOnData (clearScreen @ clearScreen @ clearScreen @ tsc_report) =
     [TSC_RESET, TSC_MSG (clearScreen @ tsc_report)]"
    by (simp add: tscOnData_def Let_def s2 b2 startsWith_def)
  from 1 2 3 4 show ?thesis by simp
qed

end
